theory Spec2Isabelle
  imports Complex_Main "HOL-Library.List_Lexorder"
begin

section \<open>Python values as the catalogue builder sees them\<close>

text \<open>
  The program is \<^verbatim>\<open>build.py\<close>: it reads a workbook and assembles one document.
  A Python \<^verbatim>\<open>str\<close> is a sequence of Unicode code points, so it is modelled as a
  list of natural numbers; \<open>ascii\<close> turns an ASCII literal into such a list.

  The tables of the Unicode database that the builtins consult (\<^verbatim>\<open>isspace\<close>,
  \<^verbatim>\<open>isdigit\<close>, \<^verbatim>\<open>lower\<close>, \<^verbatim>\<open>NFD\<close>, the classes \<^verbatim>\<open>\s\<close> and \<^verbatim>\<open>\w\<close>)
  are written out for the code points below U+0100; the whitespace table is complete.
  Above U+00FF a code point is taken to be a caseless letter without decomposition, the
  combining marks U+0300..U+036F and the punctuation block U+2000..U+206F apart.
\<close>

type_synonym ustr = "nat list"

definition ascii :: "string \<Rightarrow> ustr" where
  "ascii s = map of_char s"

text \<open>\<^verbatim>\<open>str.isspace\<close> of one code point; the class \<^verbatim>\<open>\s\<close> of \<^verbatim>\<open>re\<close> is the same set.\<close>

definition py_isspace :: "nat \<Rightarrow> bool" where
  "py_isspace c \<longleftrightarrow>
     (9 \<le> c \<and> c \<le> 13) \<or> (28 \<le> c \<and> c \<le> 32) \<or> c = 133 \<or> c = 160 \<or> c = 5760 \<or>
     (8192 \<le> c \<and> c \<le> 8202) \<or> c = 8232 \<or> c = 8233 \<or> c = 8239 \<or> c = 8287 \<or> c = 12288"

definition py_strip :: "ustr \<Rightarrow> ustr" where
  "py_strip s = rev (dropWhile py_isspace (rev (dropWhile py_isspace s)))"

text \<open>The decimal digits that \<^verbatim>\<open>int()\<close> and \<^verbatim>\<open>float()\<close> read: the ASCII ones.\<close>

definition is_dec_digit :: "nat \<Rightarrow> bool" where
  "is_dec_digit c \<longleftrightarrow> 48 \<le> c \<and> c \<le> 57"

text \<open>
  A Python \<^verbatim>\<open>float\<close> is carried as the exact rational it stands for, or as one of the
  three non-finite values. Arithmetic on it is exact: the binary64 rounding of a result
  and the range of the exponent are outside the model.
\<close>

datatype pyfloat = Fin rat | Inf bool | NaN

text \<open>What a cell of the workbook holds: nothing, a boolean, a number or a text.\<close>

datatype pyval = PNone | PBool bool | PInt int | PFloat pyfloat | PStr ustr

datatype py_error = ValueError | TypeError | OverflowError | IndexError | KeyError | AttributeError

fun truthy :: "pyval \<Rightarrow> bool" where
  "truthy PNone = False"
| "truthy (PBool b) = b"
| "truthy (PInt n) = (n \<noteq> 0)"
| "truthy (PFloat (Fin q)) = (q \<noteq> 0)"
| "truthy (PFloat _) = True"
| "truthy (PStr s) = (s \<noteq> [])"

definition bind_err :: "py_error + 'a \<Rightarrow> ('a \<Rightarrow> py_error + 'b) \<Rightarrow> py_error + 'b" where
  "bind_err m f = (case m of Inl e \<Rightarrow> Inl e | Inr x \<Rightarrow> f x)"

subsection \<open>Reading numbers out of text\<close>

text \<open>
  \<open>digit_run\<close> reads what may follow a digit inside a \<^verbatim>\<open>digitpart\<close>: further digits,
  each optionally preceded by one underscore.
\<close>

fun digit_run :: "ustr \<Rightarrow> nat list \<times> ustr" where
  "digit_run [] = ([], [])"
| "digit_run (c # cs) =
     (if is_dec_digit c then (case digit_run cs of (ds, r) \<Rightarrow> (c # ds, r))
      else if c = 95 \<and> (case cs of [] \<Rightarrow> False | d # _ \<Rightarrow> is_dec_digit d) then digit_run cs
      else ([], c # cs))"

definition digitpart :: "ustr \<Rightarrow> nat list \<times> ustr" where
  "digitpart s =
     (case s of [] \<Rightarrow> ([], [])
      | c # cs \<Rightarrow> if is_dec_digit c then (case digit_run cs of (ds, r) \<Rightarrow> (c # ds, r))
                 else ([], s))"

definition digits_val :: "nat list \<Rightarrow> nat" where
  "digits_val ds = foldl (\<lambda>a d. 10 * a + (d - 48)) 0 ds"

definition take_sign :: "ustr \<Rightarrow> bool \<times> ustr" where
  "take_sign s =
     (case s of [] \<Rightarrow> (False, [])
      | c # cs \<Rightarrow> if c = 45 then (True, cs) else if c = 43 then (False, cs) else (False, s))"

text \<open>\<^verbatim>\<open>int(s)\<close> for a text in base ten: \<open>None\<close> is the \<^verbatim>\<open>ValueError\<close>.\<close>

definition int_of_str :: "ustr \<Rightarrow> int option" where
  "int_of_str s =
     (case take_sign (py_strip s) of (neg, t) \<Rightarrow>
        (case digitpart t of (ds, r) \<Rightarrow>
           if ds = [] \<or> r \<noteq> [] then None
           else Some (if neg then - int (digits_val ds) else int (digits_val ds))))"

definition ascii_lower :: "nat \<Rightarrow> nat" where
  "ascii_lower c = (if 65 \<le> c \<and> c \<le> 90 then c + 32 else c)"

definition exponent_of :: "ustr \<Rightarrow> int option" where
  "exponent_of s =
     (case s of [] \<Rightarrow> Some 0
      | c # cs \<Rightarrow>
          if c = 101 \<or> c = 69 then
            (case take_sign cs of (neg, t) \<Rightarrow>
               (case digitpart t of (ds, r) \<Rightarrow>
                  if ds = [] \<or> r \<noteq> [] then None
                  else Some (if neg then - int (digits_val ds) else int (digits_val ds))))
          else None)"

definition pow10 :: "int \<Rightarrow> rat" where
  "pow10 e = (if 0 \<le> e then 10 ^ nat e else 1 / 10 ^ nat (- e))"

text \<open>\<^verbatim>\<open>float(s)\<close> for a text: \<open>None\<close> is the \<^verbatim>\<open>ValueError\<close>.\<close>

definition float_of_str :: "ustr \<Rightarrow> pyfloat option" where
  "float_of_str s =
     (case take_sign (py_strip s) of (neg, t) \<Rightarrow>
        if map ascii_lower t = ascii ''inf'' \<or> map ascii_lower t = ascii ''infinity''
          then Some (Inf neg)
        else if map ascii_lower t = ascii ''nan'' then Some NaN
        else
          (case digitpart t of (ip, r1) \<Rightarrow>
             (case (case r1 of [] \<Rightarrow> ([], [])
                    | c # cs \<Rightarrow> if c = 46 then digitpart cs else ([], r1)) of (fp, r2) \<Rightarrow>
                if ip = [] \<and> fp = [] then None
                else
                  (case exponent_of r2 of None \<Rightarrow> None
                   | Some e \<Rightarrow>
                       let m = (of_nat (digits_val ip) + of_nat (digits_val fp) / 10 ^ length fp)
                               * pow10 e
                       in Some (Fin (if neg then - m else m))))))"

subsection \<open>Conversions\<close>

definition trunc_rat :: "rat \<Rightarrow> int" where
  "trunc_rat q = (if 0 \<le> q then \<lfloor>q\<rfloor> else \<lceil>q\<rceil>)"

text \<open>\<^verbatim>\<open>float(v)\<close>.\<close>

fun py_float :: "pyval \<Rightarrow> py_error + pyfloat" where
  "py_float PNone = Inl TypeError"
| "py_float (PBool b) = Inr (Fin (if b then 1 else 0))"
| "py_float (PInt n) = Inr (Fin (of_int n))"
| "py_float (PFloat f) = Inr f"
| "py_float (PStr s) = (case float_of_str s of None \<Rightarrow> Inl ValueError | Some f \<Rightarrow> Inr f)"

text \<open>\<^verbatim>\<open>int(f)\<close> for a float.\<close>

fun int_of_float :: "pyfloat \<Rightarrow> py_error + int" where
  "int_of_float (Fin q) = Inr (trunc_rat q)"
| "int_of_float (Inf _) = Inl OverflowError"
| "int_of_float NaN = Inl ValueError"

text \<open>\<^verbatim>\<open>int(v)\<close>.\<close>

fun py_int :: "pyval \<Rightarrow> py_error + int" where
  "py_int PNone = Inl TypeError"
| "py_int (PBool b) = Inr (if b then 1 else 0)"
| "py_int (PInt n) = Inr n"
| "py_int (PFloat f) = int_of_float f"
| "py_int (PStr s) = (case int_of_str s of None \<Rightarrow> Inl ValueError | Some n \<Rightarrow> Inr n)"

subsection \<open>\<^verbatim>\<open>clean_number\<close>\<close>

text \<open>Rounding a rational to the nearest integer, a tie going to the even neighbour.\<close>

definition round_half_even :: "rat \<Rightarrow> int" where
  "round_half_even q =
     (let f = \<lfloor>q\<rfloor>; r = q - of_int f
      in if r < 1 / 2 then f else if 1 / 2 < r then f + 1 else if even f then f else f + 1)"

text \<open>\<^verbatim>\<open>round(f, ndigits)\<close> for a float and an integer \<^verbatim>\<open>ndigits\<close>.\<close>

fun py_round :: "pyfloat \<Rightarrow> int \<Rightarrow> pyfloat" where
  "py_round (Fin q) d = Fin (of_int (round_half_even (q * pow10 d)) * pow10 (- d))"
| "py_round f d = f"

text \<open>
  \<^verbatim>\<open>
  def clean_number(val, decimals=2):
      if val is None:
          return None
      f = round(float(val), decimals)
      if f == int(f):
          return int(f)
      return f
  \<close>
\<close>

definition clean_number :: "pyval \<Rightarrow> int \<Rightarrow> py_error + pyval" where
  "clean_number val decimals =
     (if val = PNone then Inr PNone
      else bind_err (py_float val) (\<lambda>x.
        let f = py_round x decimals in
        bind_err (int_of_float f) (\<lambda>n.
          if f = Fin (of_int n) then Inr (PInt n) else Inr (PFloat f))))"

section \<open>What the host supplies\<close>

text \<open>
  The script asks the Python runtime and the operating system for a few things it does
  not define: the shortest text of a float (\<^verbatim>\<open>str\<close> of a float), and the path
  functions \<^verbatim>\<open>os.path.join\<close>, \<^verbatim>\<open>isdir\<close>, \<^verbatim>\<open>isfile\<close> and \<^verbatim>\<open>relpath\<close> (taken
  relative to \<^verbatim>\<open>SCRIPT_DIR\<close>). They are the fields of a \<open>host\<close>; every result below
  holds for every host.
\<close>

record host =
  float_repr :: "pyfloat \<Rightarrow> ustr"
  script_dir :: ustr
  path_join :: "ustr \<Rightarrow> ustr \<Rightarrow> ustr"
  isdir :: "ustr \<Rightarrow> bool"
  isfile :: "ustr \<Rightarrow> bool"
  relpath :: "ustr \<Rightarrow> ustr"

definition PHOTOS_DIR :: "host \<Rightarrow> ustr" where
  "PHOTOS_DIR h = path_join h (script_dir h) (ascii ''photos'')"

subsection \<open>\<^verbatim>\<open>str\<close>\<close>

fun digits_of_nat :: "nat \<Rightarrow> ustr" where
  "digits_of_nat n = (if n < 10 then [48 + n] else digits_of_nat (n div 10) @ [48 + n mod 10])"

declare digits_of_nat.simps [simp del]

definition str_of_int :: "int \<Rightarrow> ustr" where
  "str_of_int n = (if n < 0 then 45 # digits_of_nat (nat (- n)) else digits_of_nat (nat n))"

text \<open>\<^verbatim>\<open>str(v)\<close>.\<close>

fun py_str :: "host \<Rightarrow> pyval \<Rightarrow> ustr" where
  "py_str h PNone = ascii ''None''"
| "py_str h (PBool b) = (if b then ascii ''True'' else ascii ''False'')"
| "py_str h (PInt n) = str_of_int n"
| "py_str h (PFloat f) = float_repr h f"
| "py_str h (PStr s) = s"

section \<open>Utilities\<close>

text \<open>
  \<^verbatim>\<open>
  def cell_val(cell):
      v = cell.value
      if v is None:
          return None
      if isinstance(v, str):
          v = v.strip()
          return v if v else None
      return v
  \<close>
  A cell is modelled by its value.
\<close>

fun cell_val :: "pyval \<Rightarrow> pyval" where
  "cell_val (PStr s) = (if py_strip s = [] then PNone else PStr (py_strip s))"
| "cell_val v = v"

text \<open>
  \<^verbatim>\<open>re.sub(r"\s*-\s*", "-", s)\<close>: at each position, from the left, the pattern matches
  when the text there is whitespace, a hyphen, whitespace; the match is replaced by a
  hyphen and the scan goes on behind it. Where it does not match, the character is kept.
\<close>

function sub_hyphen :: "ustr \<Rightarrow> ustr" where
  "sub_hyphen [] = []"
| "sub_hyphen (c # cs) =
     (case dropWhile py_isspace (c # cs) of
        [] \<Rightarrow> c # sub_hyphen cs
      | x # r \<Rightarrow> if x = 45 then 45 # sub_hyphen (dropWhile py_isspace r)
                 else c # sub_hyphen cs)"
  by pat_completeness auto
termination
proof (relation "measure length")
  show "wf (measure length)" by simp
next
  fix c :: nat and cs :: ustr
  show "(cs, c # cs) \<in> measure length" by simp
next
  fix c x :: nat and cs r :: ustr
  assume d: "dropWhile py_isspace (c # cs) = x # r"
  have "length (dropWhile py_isspace r) \<le> length r"
    by (rule length_dropWhile_le)
  moreover have "length (x # r) \<le> length (c # cs)"
    unfolding d [symmetric] by (rule length_dropWhile_le)
  ultimately show "(dropWhile py_isspace r, c # cs) \<in> measure length" by simp
next
  fix c :: nat and cs :: ustr
  show "(cs, c # cs) \<in> measure length" by simp
qed

declare sub_hyphen.simps(2) [simp del]

text \<open>
  \<^verbatim>\<open>
  def normalize_ref(ref):
      if not ref:
          return ""
      return re.sub(r"\s*-\s*", "-", str(ref).strip())
  \<close>
\<close>

definition normalize_ref :: "host \<Rightarrow> pyval \<Rightarrow> ustr" where
  "normalize_ref h ref = (if \<not> truthy ref then [] else sub_hyphen (py_strip (py_str h ref)))"

subsection \<open>\<^verbatim>\<open>normalize_granit_name\<close>\<close>

text \<open>\<^verbatim>\<open>str.lower\<close>, one code point at a time.\<close>

definition lower_char :: "nat \<Rightarrow> nat" where
  "lower_char c =
     (if 65 \<le> c \<and> c \<le> 90 then c + 32
      else if 192 \<le> c \<and> c \<le> 222 \<and> c \<noteq> 215 then c + 32
      else c)"

definition py_lower :: "ustr \<Rightarrow> ustr" where
  "py_lower s = map lower_char s"

text \<open>
  The canonical decompositions of the Latin-1 letters: the code point, its base letter
  and the combining mark.
\<close>

definition nfd_table :: "(nat \<times> nat \<times> nat) list" where
  "nfd_table =
     [(192, 65, 768), (193, 65, 769), (194, 65, 770), (195, 65, 771), (196, 65, 776),
      (197, 65, 778), (199, 67, 807), (200, 69, 768), (201, 69, 769), (202, 69, 770),
      (203, 69, 776), (204, 73, 768), (205, 73, 769), (206, 73, 770), (207, 73, 776),
      (209, 78, 771), (210, 79, 768), (211, 79, 769), (212, 79, 770), (213, 79, 771),
      (214, 79, 776), (217, 85, 768), (218, 85, 769), (219, 85, 770), (220, 85, 776),
      (221, 89, 769),
      (224, 97, 768), (225, 97, 769), (226, 97, 770), (227, 97, 771), (228, 97, 776),
      (229, 97, 778), (231, 99, 807), (232, 101, 768), (233, 101, 769), (234, 101, 770),
      (235, 101, 776), (236, 105, 768), (237, 105, 769), (238, 105, 770), (239, 105, 776),
      (241, 110, 771), (242, 111, 768), (243, 111, 769), (244, 111, 770), (245, 111, 771),
      (246, 111, 776), (249, 117, 768), (250, 117, 769), (251, 117, 770), (252, 117, 776),
      (253, 121, 769), (255, 121, 776)]"

definition nfd :: "ustr \<Rightarrow> ustr" where
  "nfd s = concat (map (\<lambda>c. case map_of nfd_table c of None \<Rightarrow> [c]
                                | Some (b, m) \<Rightarrow> [b, m]) s)"

text \<open>\<^verbatim>\<open>unicodedata.category(c) == "Mn"\<close>.\<close>

definition is_Mn :: "nat \<Rightarrow> bool" where
  "is_Mn c \<longleftrightarrow> 768 \<le> c \<and> c \<le> 879"

text \<open>The class \<^verbatim>\<open>\w\<close>: what \<^verbatim>\<open>str.isalnum\<close> accepts, and the underscore.\<close>

definition py_isword :: "nat \<Rightarrow> bool" where
  "py_isword c \<longleftrightarrow>
     c = 95 \<or> (48 \<le> c \<and> c \<le> 57) \<or> (65 \<le> c \<and> c \<le> 90) \<or> (97 \<le> c \<and> c \<le> 122) \<or>
     c \<in> {170, 178, 179, 181, 185, 186, 188, 189, 190} \<or>
     (192 \<le> c \<and> c \<le> 255 \<and> c \<noteq> 215 \<and> c \<noteq> 247) \<or>
     (256 \<le> c \<and> \<not> is_Mn c \<and> \<not> py_isspace c \<and> \<not> (8192 \<le> c \<and> c \<le> 8303))"

definition is_apostrophe :: "nat \<Rightarrow> bool" where
  "is_apostrophe c \<longleftrightarrow> c = 39 \<or> c = 96"

text \<open>
  \<^verbatim>\<open>re.sub(r"\b[dlnqsj]['`]", "", name)\<close>. The flag says whether the character before
  the position is a word character: the letter is one, so \<^verbatim>\<open>\b\<close> holds exactly when
  the character before is not (or there is none). Behind a match the character before is
  the apostrophe.
\<close>

fun sub_elision :: "bool \<Rightarrow> ustr \<Rightarrow> ustr" where
  "sub_elision w [] = []"
| "sub_elision w [c] = [c]"
| "sub_elision w (c # a # cs) =
     (if \<not> w \<and> c \<in> set (ascii ''dlnqsj'') \<and> is_apostrophe a then sub_elision False cs
      else c # sub_elision (py_isword c) (a # cs))"

definition is_sep :: "nat \<Rightarrow> bool" where
  "is_sep c \<longleftrightarrow> py_isspace c \<or> c = 47 \<or> c = 92"

text \<open>
  \<^verbatim>\<open>re.sub(r"[\s/\\]+", "-", name)\<close> and \<^verbatim>\<open>re.sub(r"-+", "-", name)\<close>: each maximal
  run of characters of the class becomes one hyphen. The flag says that the scan is inside
  a run, whose hyphen is already written.
\<close>

fun sub_runs :: "(nat \<Rightarrow> bool) \<Rightarrow> bool \<Rightarrow> ustr \<Rightarrow> ustr" where
  "sub_runs p inrun [] = []"
| "sub_runs p inrun (c # cs) =
     (if p c then (if inrun then sub_runs p True cs else 45 # sub_runs p True cs)
      else c # sub_runs p False cs)"

definition is_slug_char :: "nat \<Rightarrow> bool" where
  "is_slug_char c \<longleftrightarrow> (97 \<le> c \<and> c \<le> 122) \<or> (48 \<le> c \<and> c \<le> 57) \<or> c = 45"

definition strip_hyphens :: "ustr \<Rightarrow> ustr" where
  "strip_hyphens s = rev (dropWhile (\<lambda>c. c = 45) (rev (dropWhile (\<lambda>c. c = 45) s)))"

text \<open>
  \<^verbatim>\<open>
  def normalize_granit_name(code, nom):
      if not nom:
          return str(code)
      name = nom.lower()
      name = unicodedata.normalize("NFD", name)
      name = "".join(c for c in name if unicodedata.category(c) != "Mn")
      name = re.sub(r"\b[dlnqsj]['`]", "", name)
      name = re.sub(r"['`]", "", name)
      name = re.sub(r"[\s/\\]+", "-", name)
      name = re.sub(r"[^a-z0-9-]", "", name)
      name = re.sub(r"-+", "-", name).strip("-")
      return f"{code}-{name}"
  \<close>
  A name that is true but no text has no \<^verbatim>\<open>lower\<close>: the \<^verbatim>\<open>AttributeError\<close>.
\<close>

definition slug_of_name :: "ustr \<Rightarrow> ustr" where
  "slug_of_name nom =
     (let name = py_lower nom;
          name = nfd name;
          name = filter (\<lambda>c. \<not> is_Mn c) name;
          name = sub_elision False name;
          name = filter (\<lambda>c. \<not> is_apostrophe c) name;
          name = sub_runs is_sep False name;
          name = filter is_slug_char name;
          name = strip_hyphens (sub_runs (\<lambda>c. c = 45) False name)
      in name)"

definition normalize_granit_name :: "host \<Rightarrow> pyval \<Rightarrow> pyval \<Rightarrow> py_error + ustr" where
  "normalize_granit_name h code nom =
     (if \<not> truthy nom then Inr (py_str h code)
      else case nom of
             PStr s \<Rightarrow> Inr (py_str h code @ [45] @ slug_of_name s)
           | _ \<Rightarrow> Inl AttributeError)"

subsection \<open>\<^verbatim>\<open>find_photo\<close>\<close>

text \<open>
  \<^verbatim>\<open>
  def find_photo(directory, base_name):
      if not os.path.isdir(directory):
          return None
      for ext in [".jpg", ".jpeg", ".png"]:
          filename = base_name + ext
          filepath = os.path.join(directory, filename)
          if os.path.isfile(filepath):
              return os.path.relpath(filepath, SCRIPT_DIR).replace("\\", "/")
      return None
  \<close>
\<close>

fun try_exts :: "host \<Rightarrow> ustr \<Rightarrow> ustr \<Rightarrow> ustr list \<Rightarrow> ustr option" where
  "try_exts h directory base_name [] = None"
| "try_exts h directory base_name (ext # exts) =
     (let filepath = path_join h directory (base_name @ ext)
      in if isfile h filepath
         then Some (map (\<lambda>c. if c = 92 then 47 else c) (relpath h filepath))
         else try_exts h directory base_name exts)"

definition find_photo :: "host \<Rightarrow> ustr \<Rightarrow> ustr \<Rightarrow> ustr option" where
  "find_photo h directory base_name =
     (if \<not> isdir h directory then None
      else try_exts h directory base_name [ascii ''.jpg'', ascii ''.jpeg'', ascii ''.png''])"

section \<open>The workbook and the document\<close>

text \<open>
  A sheet is its visibility attribute (absent on a sheet that has none) and its rows of
  cell values, the header row first. A workbook is its sheets by name, in sheet order.
  An item of the document is a Python \<^verbatim>\<open>dict\<close> from field names to values, kept in
  insertion order.
\<close>

record sheet =
  sheet_state :: "ustr option"
  cells :: "pyval list list"

type_synonym workbook = "(ustr \<times> sheet) list"

type_synonym item = "(ustr \<times> pyval) list"

datatype docval = Items "item list" | Table item | Strs "ustr list"

type_synonym document = "(ustr \<times> docval) list"

text \<open>\<^verbatim>\<open>d[k] = v\<close>: a present key keeps its place, a new one goes last.\<close>

fun dict_set :: "'k \<Rightarrow> 'v \<Rightarrow> ('k \<times> 'v) list \<Rightarrow> ('k \<times> 'v) list" where
  "dict_set k v [] = [(k, v)]"
| "dict_set k v ((k', v') # d) = (if k' = k then (k, v) # d else (k', v') # dict_set k v d)"

definition sheetnames :: "workbook \<Rightarrow> ustr list" where
  "sheetnames wb = map fst wb"

text \<open>\<^verbatim>\<open>wb[name]\<close>.\<close>

definition wb_get :: "workbook \<Rightarrow> ustr \<Rightarrow> py_error + sheet" where
  "wb_get wb name = (case map_of wb name of None \<Rightarrow> Inl KeyError | Some ws \<Rightarrow> Inr ws)"

text \<open>\<^verbatim>\<open>ws.iter_rows(min_row=2)\<close>.\<close>

definition data_rows :: "sheet \<Rightarrow> pyval list list" where
  "data_rows ws = drop 1 (cells ws)"

text \<open>\<^verbatim>\<open>row[i]\<close>.\<close>

definition cell :: "pyval list \<Rightarrow> nat \<Rightarrow> py_error + pyval" where
  "cell row i = (if i < length row then Inr (row ! i) else Inl IndexError)"

text \<open>A \<^verbatim>\<open>for\<close> loop over rows that an exception leaves.\<close>

fun fold_err :: "('a \<Rightarrow> 's \<Rightarrow> py_error + 's) \<Rightarrow> 'a list \<Rightarrow> 's \<Rightarrow> py_error + 's" where
  "fold_err f [] s = Inr s"
| "fold_err f (x # xs) s = bind_err (f x s) (fold_err f xs)"

text \<open>\<^verbatim>\<open>if photo: entry["photo"] = photo\<close>.\<close>

definition add_photo :: "ustr option \<Rightarrow> item \<Rightarrow> item" where
  "add_photo photo entry =
     (case photo of None \<Rightarrow> entry
      | Some p \<Rightarrow> if p \<noteq> [] then dict_set (ascii ''photo'') (PStr p) entry else entry)"

text \<open>\<^verbatim>\<open>str(v) if v else ""\<close>, \<^verbatim>\<open>int(v) if v else 0\<close>, \<^verbatim>\<open>clean_number(v) if v else 0\<close>.\<close>

definition str_or_empty :: "host \<Rightarrow> pyval \<Rightarrow> pyval" where
  "str_or_empty h v = PStr (if truthy v then py_str h v else [])"

definition int_or_zero :: "pyval \<Rightarrow> py_error + pyval" where
  "int_or_zero v = (if truthy v then bind_err (py_int v) (\<lambda>n. Inr (PInt n)) else Inr (PInt 0))"

definition number_or_zero :: "pyval \<Rightarrow> py_error + pyval" where
  "number_or_zero v = (if truthy v then clean_number v 2 else Inr (PInt 0))"

section \<open>Structural sheets\<close>

text \<open>
  \<^verbatim>\<open>read_granits\<close>: a row gives an entry when its code is not \<^verbatim>\<open>None\<close> and its name is
  true.
\<close>

definition granit_row :: "host \<Rightarrow> pyval list \<Rightarrow> item list \<Rightarrow> py_error + item list" where
  "granit_row h row granits =
     (if length row < 3 then Inl IndexError
      else
        let code = cell_val (row ! 0); nom = cell_val (row ! 1); origine = cell_val (row ! 2)
        in if code \<noteq> PNone \<and> truthy nom then
             bind_err (normalize_granit_name h code nom) (\<lambda>photo_base.
               let photo = find_photo h (path_join h (PHOTOS_DIR h) (ascii ''granits''))
                             photo_base
               in bind_err (case code of PStr s \<Rightarrow> Inr code
                            | _ \<Rightarrow> bind_err (py_int code) (\<lambda>n. Inr (PInt n))) (\<lambda>c.
                    let entry =
                          [(ascii ''code'', c),
                           (ascii ''nom'', PStr (py_str h nom)),
                           (ascii ''origine'',
                            PStr (if truthy origine then py_strip (py_str h origine) else []))]
                    in Inr (granits @ [add_photo photo entry])))
           else Inr granits)"

definition read_granits :: "host \<Rightarrow> workbook \<Rightarrow> py_error + item list" where
  "read_granits h wb =
     bind_err (wb_get wb (ascii ''GRANITS'')) (\<lambda>ws. fold_err (granit_row h) (data_rows ws) [])"

text \<open>
  \<^verbatim>\<open>
  def read_poids(wb):
      ws = wb["Poids"]
      poids = {}
      for row in ws.iter_rows(min_row=2, values_only=False):
          ref = cell_val(row[1])
          val = cell_val(row[2])
          if ref and val is not None:
              poids[str(ref)] = clean_number(val, 3) if val else 0
      return poids
  \<close>
\<close>

definition poids_row :: "host \<Rightarrow> pyval list \<Rightarrow> item \<Rightarrow> py_error + item" where
  "poids_row h row poids =
     (if length row < 3 then Inl IndexError
      else
        let ref = cell_val (row ! 1); val = cell_val (row ! 2)
        in if truthy ref \<and> val \<noteq> PNone then
             bind_err (if truthy val then clean_number val 3 else Inr (PInt 0)) (\<lambda>w.
               Inr (dict_set (py_str h ref) w poids))
           else Inr poids)"

definition read_poids :: "host \<Rightarrow> workbook \<Rightarrow> py_error + item" where
  "read_poids h wb =
     bind_err (wb_get wb (ascii ''Poids'')) (\<lambda>ws. fold_err (poids_row h) (data_rows ws) [])"

text \<open>\<^verbatim>\<open>str.isdigit\<close>: every character is a digit and there is at least one.\<close>

definition is_digit_char :: "nat \<Rightarrow> bool" where
  "is_digit_char c \<longleftrightarrow> (48 \<le> c \<and> c \<le> 57) \<or> c = 178 \<or> c = 179 \<or> c = 185"

definition py_isdigit :: "ustr \<Rightarrow> bool" where
  "py_isdigit s \<longleftrightarrow> s \<noteq> [] \<and> list_all is_digit_char s"

text \<open>
  The department code, as both \<^verbatim>\<open>read_zones_transport\<close> and \<^verbatim>\<open>read_listes\<close> compute it
  for a cell that is not \<^verbatim>\<open>None\<close>:
  \<^verbatim>\<open>
  dept_str = str(int(dept)) if isinstance(dept, (int, float)) else str(dept)
  if dept_str.isdigit() and len(dept_str) == 1:
      dept_str = "0" + dept_str
  \<close>
\<close>

definition pad_dept :: "ustr \<Rightarrow> ustr" where
  "pad_dept dept_str = (if py_isdigit dept_str \<and> length dept_str = 1 then 48 # dept_str else dept_str)"

fun dept_text :: "pyval \<Rightarrow> py_error + ustr" where
  "dept_text (PStr s) = Inr s"
| "dept_text PNone = Inr (ascii ''None'')"
| "dept_text v = bind_err (py_int v) (\<lambda>n. Inr (str_of_int n))"

definition dept_code :: "pyval \<Rightarrow> py_error + ustr" where
  "dept_code dept = bind_err (dept_text dept) (\<lambda>dept_str. Inr (pad_dept dept_str))"

text \<open>\<^verbatim>\<open>read_zones_transport\<close>: the columns A to F of a row, in order.\<close>

fun zone_cols :: "pyval list \<Rightarrow> nat list \<Rightarrow> (ustr \<times> ustr) list \<Rightarrow> py_error + (ustr \<times> ustr) list" where
  "zone_cols row [] zones = Inr zones"
| "zone_cols row (col_idx # cols) zones =
     bind_err (cell row col_idx) (\<lambda>v.
       let dept = cell_val v
       in if dept \<noteq> PNone then
            bind_err (dept_code dept) (\<lambda>dept_str.
              zone_cols row cols
                (dict_set dept_str (ascii ''Zone '' @ str_of_int (int col_idx + 1)) zones))
          else zone_cols row cols zones)"

definition read_zones_transport :: "workbook \<Rightarrow> py_error + (ustr \<times> ustr) list" where
  "read_zones_transport wb =
     bind_err (wb_get wb (ascii ''Zone.TFranco''))
       (\<lambda>ws. fold_err (\<lambda>row. zone_cols row [0 ..< 6]) (data_rows ws) [])"

text \<open>\<^verbatim>\<open>read_tarifs_transport\<close>; \<^verbatim>\<open>int(row[i].value) if row[i].value else 0\<close> reads the raw value.\<close>

definition starts_with :: "ustr \<Rightarrow> ustr \<Rightarrow> bool" where
  "starts_with s p \<longleftrightarrow> take (length p) s = p"

definition ends_with :: "ustr \<Rightarrow> ustr \<Rightarrow> bool" where
  "ends_with s p \<longleftrightarrow> length p \<le> length s \<and> drop (length s - length p) s = p"

definition tarif_cell :: "pyval list \<Rightarrow> nat \<Rightarrow> py_error + pyval" where
  "tarif_cell row i = bind_err (cell row i) int_or_zero"

definition tarif_row :: "host \<Rightarrow> pyval list \<Rightarrow> item list \<Rightarrow> py_error + item list" where
  "tarif_row h row tarifs =
     bind_err (cell row 0) (\<lambda>v.
       let zone = cell_val v
       in if truthy zone \<and> starts_with (py_str h zone) (ascii ''Zone'') then
            bind_err (tarif_cell row 1) (\<lambda>t1.
            bind_err (tarif_cell row 2) (\<lambda>t2.
            bind_err (tarif_cell row 3) (\<lambda>t3.
            bind_err (tarif_cell row 4) (\<lambda>t4.
            bind_err (tarif_cell row 5) (\<lambda>t5.
            bind_err (tarif_cell row 6) (\<lambda>t6.
              Inr (tarifs @
                [[(ascii ''zone'', PStr (py_str h zone)),
                  (ascii ''0_3T'', t1), (ascii ''3_5T'', t2), (ascii ''5_8T'', t3),
                  (ascii ''8_10T'', t4), (ascii ''10_15T'', t5),
                  (ascii ''minimum'', t6)]])))))))
          else Inr tarifs)"

definition read_tarifs_transport :: "host \<Rightarrow> workbook \<Rightarrow> py_error + item list" where
  "read_tarifs_transport h wb =
     bind_err (wb_get wb (ascii ''Tarif TFranco''))
       (\<lambda>ws. fold_err (tarif_row h) (data_rows ws) [])"

text \<open>
  \<^verbatim>\<open>read_listes\<close>: the state of the loop is the set of types (kept without duplicates),
  the two lists of lines and the list of departments.
\<close>

type_synonym listes = "ustr list \<times> ustr list \<times> ustr list \<times> item list"

definition add_new :: "ustr \<Rightarrow> ustr list \<Rightarrow> ustr list" where
  "add_new s xs = (if s \<in> set xs then xs else xs @ [s])"

definition liste_row :: "host \<Rightarrow> pyval list \<Rightarrow> listes \<Rightarrow> py_error + listes" where
  "liste_row h row st =
     (if length row < 5 then Inl IndexError
      else case st of (types, lignes_monument, lignes_accessoire, departements) \<Rightarrow>
        let dept = cell_val (row ! 0); zone = cell_val (row ! 1); typ = cell_val (row ! 2);
            lm = cell_val (row ! 3); la = cell_val (row ! 4);
            types = (if truthy typ then add_new (py_str h typ) types else types);
            lignes_monument =
              (if truthy lm then add_new (py_str h lm) lignes_monument else lignes_monument);
            lignes_accessoire =
              (if truthy la then add_new (py_str h la) lignes_accessoire else lignes_accessoire)
        in if dept \<noteq> PNone \<and> truthy zone then
             bind_err (dept_code dept) (\<lambda>dept_str.
               Inr (types, lignes_monument, lignes_accessoire,
                    if list_ex (\<lambda>d. map_of d (ascii ''departement'') = Some (PStr dept_str))
                         departements
                    then departements
                    else departements @
                           [[(ascii ''departement'', PStr dept_str),
                             (ascii ''zone'', PStr (py_str h zone))]]))
           else Inr (types, lignes_monument, lignes_accessoire, departements))"

definition type_order :: "ustr list" where
  "type_order = [ascii ''Monument'', ascii ''Semelle'', ascii ''Accessoire'', ascii ''Urne'',
                 ascii ''Gravure'', ascii ''Litho'']"

definition order_types :: "ustr list \<Rightarrow> ustr list" where
  "order_types types =
     (let types_list = filter (\<lambda>t. t \<in> set types) type_order
      in foldl (\<lambda>acc t. if t \<in> set acc then acc else acc @ [t]) types_list (sort types))"

definition read_listes :: "host \<Rightarrow> workbook \<Rightarrow> py_error + listes" where
  "read_listes h wb =
     bind_err (wb_get wb (ascii ''LISTES'')) (\<lambda>ws.
       bind_err (fold_err (liste_row h) (data_rows ws) ([], [], [], []))
         (\<lambda>(types, lignes_monument, lignes_accessoire, departements).
            Inr (order_types types, lignes_monument, lignes_accessoire, departements)))"

section \<open>Product sheets\<close>

definition FIXED_TABS :: "ustr list" where
  "FIXED_TABS = [ascii ''GRANITS'', ascii ''Poids'', ascii ''Tarif TFranco'',
                 ascii ''Zone.TFranco'', ascii ''LISTES'']"

definition IGNORED_TABS :: "ustr list" where
  "IGNORED_TABS = [ascii ''Mode op'' @ [233] @ ascii ''ratoire'',
                   ascii ''CALCUL PRIX ACHAT '' @ [8364],
                   ascii ''CALCUL PRIX FAMILLE '' @ [8364],
                   ascii ''(Semelles.Monument.'' @ [8364] @ ascii ''HT)'']"

definition tab_suffix :: ustr where
  "tab_suffix = ascii ''.PrixAdh.'' @ [8364] @ ascii ''HT''"

text \<open>
  \<^verbatim>\<open>re.match(PRODUCT_TAB_PATTERN, name)\<close>, the pattern being one or more characters
  other than a newline, then \<^verbatim>\<open>.PrixAdh.\<close>, the euro sign (U+20AC) and \<^verbatim>\<open>HT\<close>, up to
  the end of the name or to its final newline.
\<close>

definition matches_product_pattern :: "ustr \<Rightarrow> bool" where
  "matches_product_pattern name =
     (let n = (if name \<noteq> [] \<and> last name = 10 then butlast name else name);
          a = take (length n - length tab_suffix) n
      in ends_with n tab_suffix \<and> a \<noteq> [] \<and> 10 \<notin> set a)"

text \<open>
  \<^verbatim>\<open>
  def detect_product_tabs(wb):
      tabs = []
      for name in wb.sheetnames:
          if name in IGNORED_TABS:
              continue
          if name in FIXED_TABS:
              continue
          if re.match(PRODUCT_TAB_PATTERN, name):
              ws = wb[name]
              if name.startswith("(") and name.endswith(")"):
                  continue
              if hasattr(ws, 'sheet_state') and ws.sheet_state != 'visible':
                  continue
              tabs.append(name)
      return tabs
  \<close>
\<close>

definition is_product_tab :: "workbook \<Rightarrow> ustr \<Rightarrow> bool" where
  "is_product_tab wb name =
     (if name \<in> set IGNORED_TABS then False
      else if name \<in> set FIXED_TABS then False
      else if matches_product_pattern name then
        (case map_of wb name of
           None \<Rightarrow> False
         | Some ws \<Rightarrow>
             if starts_with name (ascii ''('') \<and> ends_with name (ascii '')'') then False
             else if sheet_state ws \<noteq> None \<and> sheet_state ws \<noteq> Some (ascii ''visible'')
               then False
             else True)
      else False)"

definition detect_product_tabs :: "workbook \<Rightarrow> ustr list" where
  "detect_product_tabs wb = filter (is_product_tab wb) (sheetnames wb)"

text \<open>
  \<^verbatim>\<open>
  def extract_product_type(tab_name):
      base = tab_name.split(".")[0]
      if base.endswith("s") and base != "Poids":
          base = base[:-1]
      return base
  \<close>
\<close>

definition extract_product_type :: "ustr \<Rightarrow> ustr" where
  "extract_product_type tab_name =
     (let base = takeWhile (\<lambda>c. c \<noteq> 46) tab_name
      in if ends_with base (ascii ''s'') \<and> base \<noteq> ascii ''Poids'' then butlast base else base)"

text \<open>The test of the four specialised readers: \<^verbatim>\<open>if ref and prix is not None\<close>.\<close>

definition has_ref_and_price :: "pyval \<Rightarrow> pyval \<Rightarrow> bool" where
  "has_ref_and_price ref prix \<longleftrightarrow> truthy ref \<and> prix \<noteq> PNone"

text \<open>
  Each specialised reader runs the same loop: a row that is too short for the columns read
  raises \<^verbatim>\<open>IndexError\<close>; a row with a reference and a price gives an entry, which is
  appended; any other row is skipped. The entry of each reader follows.
\<close>

text \<open>\<^verbatim>\<open>read_monuments\<close>: the entry of a row.\<close>

definition monument_entry :: "host \<Rightarrow> pyval list \<Rightarrow> py_error + item" where
  "monument_entry h row =
     (let ligne = cell_val (row ! 0); ref = cell_val (row ! 1); origine = cell_val (row ! 2);
          code_g = cell_val (row ! 3); granit = cell_val (row ! 4); prix = cell_val (row ! 5);
          sem130 = cell_val (row ! 6); sem140 = cell_val (row ! 7); sem150 = cell_val (row ! 8)
      in bind_err (int_or_zero code_g) (\<lambda>cg.
         bind_err (number_or_zero prix) (\<lambda>p.
         bind_err (clean_number sem130 2) (\<lambda>s130.
         bind_err (clean_number sem140 2) (\<lambda>s140.
         bind_err (clean_number sem150 2) (\<lambda>s150.
           let entry =
                 [(ascii ''ligne'', str_or_empty h ligne),
                  (ascii ''reference'', PStr (py_str h ref)),
                  (ascii ''origine'', str_or_empty h origine),
                  (ascii ''code_granit'', cg),
                  (ascii ''granit'', str_or_empty h granit),
                  (ascii ''prix_ht'', p),
                  (ascii ''avec_semelle_130x230'', s130),
                  (ascii ''avec_semelle_140x240'', s140),
                  (ascii ''avec_semelle_150x250'', s150)];
               photo = find_photo h (path_join h (PHOTOS_DIR h) (ascii ''monuments''))
                         (normalize_ref h ref)
           in Inr (add_photo photo entry)))))))"

definition monument_row :: "host \<Rightarrow> pyval list \<Rightarrow> item list \<Rightarrow> py_error + item list" where
  "monument_row h row items =
     (if length row < 9 then Inl IndexError
      else if has_ref_and_price (cell_val (row ! 1)) (cell_val (row ! 5))
        then bind_err (monument_entry h row) (\<lambda>entry. Inr (items @ [entry]))
      else Inr items)"

definition read_monuments :: "host \<Rightarrow> workbook \<Rightarrow> ustr \<Rightarrow> py_error + item list" where
  "read_monuments h wb tab_name =
     bind_err (wb_get wb tab_name) (\<lambda>ws. fold_err (monument_row h) (data_rows ws) [])"

text \<open>\<^verbatim>\<open>read_semelles\<close>: the entry of a row.\<close>

definition semelle_entry :: "host \<Rightarrow> pyval list \<Rightarrow> py_error + item" where
  "semelle_entry h row =
     (let ref = cell_val (row ! 1); origine = cell_val (row ! 2); code_g = cell_val (row ! 3);
          granit = cell_val (row ! 4); prix = cell_val (row ! 5)
      in bind_err (int_or_zero code_g) (\<lambda>cg.
         bind_err (number_or_zero prix) (\<lambda>p.
           Inr [(ascii ''reference'', PStr (py_str h ref)),
                (ascii ''origine'', str_or_empty h origine),
                (ascii ''code_granit'', cg),
                (ascii ''granit'', str_or_empty h granit),
                (ascii ''prix_ht'', p)])))"

definition semelle_row :: "host \<Rightarrow> pyval list \<Rightarrow> item list \<Rightarrow> py_error + item list" where
  "semelle_row h row items =
     (if length row < 6 then Inl IndexError
      else if has_ref_and_price (cell_val (row ! 1)) (cell_val (row ! 5))
        then bind_err (semelle_entry h row) (\<lambda>entry. Inr (items @ [entry]))
      else Inr items)"

definition read_semelles :: "host \<Rightarrow> workbook \<Rightarrow> ustr \<Rightarrow> py_error + item list" where
  "read_semelles h wb tab_name =
     bind_err (wb_get wb tab_name) (\<lambda>ws. fold_err (semelle_row h) (data_rows ws) [])"

text \<open>\<^verbatim>\<open>read_accessoires\<close>: the entry of a row.\<close>

definition accessoire_entry :: "host \<Rightarrow> pyval list \<Rightarrow> py_error + item" where
  "accessoire_entry h row =
     (let typ = cell_val (row ! 1); ref = cell_val (row ! 2); origine = cell_val (row ! 3);
          code_g = cell_val (row ! 4); granit = cell_val (row ! 5); prix = cell_val (row ! 6)
      in bind_err (int_or_zero code_g) (\<lambda>cg.
         bind_err (number_or_zero prix) (\<lambda>p.
           let entry =
                 [(ascii ''type'', str_or_empty h typ),
                  (ascii ''reference'', PStr (py_str h ref)),
                  (ascii ''origine'', str_or_empty h origine),
                  (ascii ''code_granit'', cg),
                  (ascii ''granit'', str_or_empty h granit),
                  (ascii ''prix_ht'', p)];
               photo = find_photo h (path_join h (PHOTOS_DIR h) (ascii ''accessoires''))
                         (normalize_ref h ref)
           in Inr (add_photo photo entry))))"

definition accessoire_row :: "host \<Rightarrow> pyval list \<Rightarrow> item list \<Rightarrow> py_error + item list" where
  "accessoire_row h row items =
     (if length row < 7 then Inl IndexError
      else if has_ref_and_price (cell_val (row ! 2)) (cell_val (row ! 6))
        then bind_err (accessoire_entry h row) (\<lambda>entry. Inr (items @ [entry]))
      else Inr items)"

definition read_accessoires :: "host \<Rightarrow> workbook \<Rightarrow> ustr \<Rightarrow> py_error + item list" where
  "read_accessoires h wb tab_name =
     bind_err (wb_get wb tab_name) (\<lambda>ws. fold_err (accessoire_row h) (data_rows ws) [])"

text \<open>\<^verbatim>\<open>read_gravures\<close>: the entry of a row.\<close>

definition gravure_entry :: "host \<Rightarrow> pyval list \<Rightarrow> py_error + item" where
  "gravure_entry h row =
     (let ref = cell_val (row ! 1); prix = cell_val (row ! 2)
      in bind_err (number_or_zero prix) (\<lambda>p.
           Inr [(ascii ''reference'', PStr (py_str h ref)),
                (ascii ''prix_caractere_ht'', p)]))"

definition gravure_row :: "host \<Rightarrow> pyval list \<Rightarrow> item list \<Rightarrow> py_error + item list" where
  "gravure_row h row items =
     (if length row < 3 then Inl IndexError
      else if has_ref_and_price (cell_val (row ! 1)) (cell_val (row ! 2))
        then bind_err (gravure_entry h row) (\<lambda>entry. Inr (items @ [entry]))
      else Inr items)"

definition read_gravures :: "host \<Rightarrow> workbook \<Rightarrow> ustr \<Rightarrow> py_error + item list" where
  "read_gravures h wb tab_name =
     bind_err (wb_get wb tab_name) (\<lambda>ws. fold_err (gravure_row h) (data_rows ws) [])"

subsection \<open>The generic reader\<close>

text \<open>\<^verbatim>\<open>x in h\<close> for two texts: \<open>x\<close> occurs in \<open>h\<close>.\<close>

fun contains :: "ustr \<Rightarrow> ustr \<Rightarrow> bool" where
  "contains [] x = (x = [])"
| "contains (c # cs) x = (starts_with (c # cs) x \<or> contains cs x)"

text \<open>The \<^verbatim>\<open>if\<close>/\<^verbatim>\<open>elif\<close> chain that files one value under the field its header names.\<close>

definition set_field :: "host \<Rightarrow> ustr \<Rightarrow> pyval \<Rightarrow> item \<Rightarrow> py_error + item" where
  "set_field h hdr v entry =
     (if contains hdr (ascii ''r'' @ [233] @ ascii ''f'' @ [233] @ ascii ''rence'')
         \<or> contains hdr (ascii ''reference'')
        then Inr (dict_set (ascii ''reference'') (PStr (py_str h v)) entry)
      else if contains hdr (ascii ''type'')
        then Inr (dict_set (ascii ''type'') (PStr (py_str h v)) entry)
      else if contains hdr (ascii ''ligne'')
        then Inr (dict_set (ascii ''ligne'') (PStr (py_str h v)) entry)
      else if hdr = ascii ''i/c'' \<or> hdr = ascii ''origine''
        then Inr (dict_set (ascii ''origine'') (PStr (py_str h v)) entry)
      else if contains hdr (ascii ''code'') \<and> contains hdr (ascii ''granit'')
        then bind_err (int_or_zero v) (\<lambda>n. Inr (dict_set (ascii ''code_granit'') n entry))
      else if contains hdr (ascii ''code'')
        then bind_err (int_or_zero v) (\<lambda>n. Inr (dict_set (ascii ''code_granit'') n entry))
      else if contains hdr (ascii ''granit'')
        then Inr (dict_set (ascii ''granit'') (PStr (py_str h v)) entry)
      else if contains hdr (ascii ''caract'' @ [232] @ ascii ''re'')
              \<or> contains hdr (ascii ''caractere'')
        then bind_err (number_or_zero v)
               (\<lambda>p. Inr (dict_set (ascii ''prix_caractere_ht'') p entry))
      else if contains hdr (ascii ''prix'')
        then bind_err (number_or_zero v) (\<lambda>p. Inr (dict_set (ascii ''prix_ht'') p entry))
      else Inr entry)"

text \<open>
  \<^verbatim>\<open>
  for i, h in enumerate(headers):
      if i >= len(vals):
          break
      v = vals[i]
      if v is None:
          continue
      ...
  \<close>
\<close>

fun generic_fields :: "host \<Rightarrow> ustr list \<Rightarrow> pyval list \<Rightarrow> item \<Rightarrow> py_error + item" where
  "generic_fields h [] vals entry = Inr entry"
| "generic_fields h (hdr # hdrs) [] entry = Inr entry"
| "generic_fields h (hdr # hdrs) (v # vals) entry =
     (if v = PNone then generic_fields h hdrs vals entry
      else bind_err (set_field h hdr v entry) (generic_fields h hdrs vals))"

definition generic_row ::
    "host \<Rightarrow> ustr list \<Rightarrow> ustr \<Rightarrow> pyval list \<Rightarrow> item list \<Rightarrow> py_error + item list" where
  "generic_row h headers photos_dir row items =
     (let vals = map cell_val row
      in if \<not> list_ex (\<lambda>v. v \<noteq> PNone) vals then Inr items
         else
           bind_err (generic_fields h headers vals []) (\<lambda>entry.
             if entry \<noteq> [] then
               let ref = (case map_of entry (ascii ''reference'') of
                            None \<Rightarrow> PStr [] | Some r \<Rightarrow> r);
                   photo = (if truthy ref then find_photo h photos_dir (normalize_ref h ref)
                            else None)
               in Inr (items @ [add_photo photo entry])
             else Inr items))"

text \<open>The header row \<^verbatim>\<open>ws[1]\<close>: \<^verbatim>\<open>str(h).lower().strip() if h else ""\<close> of each cell.\<close>

definition header_of :: "host \<Rightarrow> pyval \<Rightarrow> ustr" where
  "header_of h c = (let v = cell_val c in if truthy v then py_strip (py_lower (py_str h v)) else [])"

definition read_generic_product :: "host \<Rightarrow> workbook \<Rightarrow> ustr \<Rightarrow> ustr \<Rightarrow> py_error + item list" where
  "read_generic_product h wb tab_name product_type =
     bind_err (wb_get wb tab_name) (\<lambda>ws.
       let headers = map (header_of h) (case cells ws of [] \<Rightarrow> [] | r # _ \<Rightarrow> r);
           type_lower = py_lower product_type;
           photos_subdir = (if ends_with type_lower (ascii ''e'') then type_lower @ ascii ''s''
                            else type_lower @ ascii ''s'');
           photos_dir = path_join h (PHOTOS_DIR h) photos_subdir
       in fold_err (generic_row h headers photos_dir) (data_rows ws) [])"

section \<open>Assembling the document\<close>

text \<open>
  The body of the loop over the product tabs of \<^verbatim>\<open>build_data\<close>: the reader is chosen by
  the product type, and the items are stored under the key of the type.
\<close>

definition read_product :: "host \<Rightarrow> workbook \<Rightarrow> ustr \<Rightarrow> py_error + ustr \<times> item list" where
  "read_product h wb tab_name =
     (let product_type = extract_product_type tab_name
      in if product_type = ascii ''Monument''
           then bind_err (read_monuments h wb tab_name) (\<lambda>items. Inr (ascii ''monuments'', items))
         else if product_type = ascii ''Semelle''
           then bind_err (read_semelles h wb tab_name) (\<lambda>items. Inr (ascii ''semelles'', items))
         else if product_type = ascii ''Accessoire''
           then bind_err (read_accessoires h wb tab_name)
                  (\<lambda>items. Inr (ascii ''accessoires'', items))
         else if product_type = ascii ''Gravure''
           then bind_err (read_gravures h wb tab_name) (\<lambda>items. Inr (ascii ''gravures'', items))
         else bind_err (read_generic_product h wb tab_name product_type)
                (\<lambda>items. Inr (py_lower product_type @ ascii ''s'', items)))"

definition tab_step :: "host \<Rightarrow> workbook \<Rightarrow> ustr \<Rightarrow> document \<Rightarrow> py_error + document" where
  "tab_step h wb tab_name data =
     bind_err (read_product h wb tab_name) (\<lambda>(key, items). Inr (dict_set key (Items items) data))"

definition expected_keys :: "ustr list" where
  "expected_keys = [ascii ''monuments'', ascii ''semelles'', ascii ''accessoires'',
                    ascii ''gravures'', ascii ''lithos'', ascii ''urnes'']"

text \<open>
  \<^verbatim>\<open>
  for expected_key in ["monuments", "semelles", "accessoires", "gravures", "lithos", "urnes"]:
      if expected_key not in data:
          data[expected_key] = []
  \<close>
\<close>

definition fill_expected :: "document \<Rightarrow> document" where
  "fill_expected data =
     foldl (\<lambda>d k. if k \<in> fst ` set d then d else dict_set k (Items []) d) data expected_keys"

text \<open>
  \<^verbatim>\<open>build_data\<close>, from the loaded workbook to the document it returns. Printing, the
  writing of \<^verbatim>\<open>data.json\<close> and the creation of missing photo directories leave the
  document as it is and are not modelled.
\<close>

definition build_data :: "host \<Rightarrow> workbook \<Rightarrow> py_error + document" where
  "build_data h wb =
     bind_err (read_granits h wb) (\<lambda>granits.
     bind_err (read_poids h wb) (\<lambda>poids.
     bind_err (read_zones_transport wb) (\<lambda>zones_transport.
     bind_err (read_tarifs_transport h wb) (\<lambda>tarifs_transport.
     bind_err (read_listes h wb) (\<lambda>(types_list, lignes_monument, lignes_accessoire, departements).
       let product_tabs = detect_product_tabs wb
       in bind_err (fold_err (tab_step h wb) product_tabs [(ascii ''granits'', Items granits)])
            (\<lambda>data.
               let data = fill_expected data;
                   data = dict_set (ascii ''poids'') (Table poids) data;
                   data = dict_set (ascii ''zones_transport'')
                            (Table (map (\<lambda>(k, z). (k, PStr z)) zones_transport)) data;
                   data = dict_set (ascii ''tarifs_transport'') (Items tarifs_transport) data;
                   data = dict_set (ascii ''departements'') (Items departements) data;
                   data = dict_set (ascii ''types'') (Strs types_list) data;
                   data = dict_set (ascii ''lignes_monument'') (Strs lignes_monument) data;
                   data = dict_set (ascii ''lignes_accessoire'') (Strs lignes_accessoire) data
               in Inr data))))))"

section \<open>A host and workbooks for the examples\<close>

text \<open>
  The examples below run on a host with Posix paths and no photo on disk; none of them
  applies \<^verbatim>\<open>str\<close> to a float.
\<close>

definition example_host :: host where
  "example_host =
     \<lparr>float_repr = (\<lambda>f. []), script_dir = ascii ''/site'',
      path_join = (\<lambda>a b. a @ [47] @ b), isdir = (\<lambda>d. False), isfile = (\<lambda>p. False),
      relpath = (\<lambda>p. p)\<rparr>"

definition tab_name_of :: "string \<Rightarrow> ustr" where
  "tab_name_of base = ascii base @ tab_suffix"

text \<open>
  A text in which no hyphen has whitespace next to it, before or behind: what
  \<^verbatim>\<open>normalize_ref\<close> is to produce.
\<close>

fun hyphens_bare :: "ustr \<Rightarrow> bool" where
  "hyphens_bare (a # b # cs) \<longleftrightarrow>
     \<not> (a = 45 \<and> py_isspace b) \<and> \<not> (py_isspace a \<and> b = 45) \<and> hyphens_bare (b # cs)"
| "hyphens_bare cs \<longleftrightarrow> True"

text \<open>An ordinary character: neither whitespace nor a hyphen.\<close>

definition ordinary :: "nat \<Rightarrow> bool" where
  "ordinary c \<longleftrightarrow> \<not> py_isspace c \<and> c \<noteq> 45"

text \<open>\<^verbatim>\<open>str.rstrip\<close>, for stating what \<^verbatim>\<open>strip\<close> leaves of a text.\<close>

definition rstrip :: "ustr \<Rightarrow> ustr" where
  "rstrip s = rev (dropWhile py_isspace (rev s))"

text \<open>A row of the weight sheet that stores an entry: \<^verbatim>\<open>if ref and val is not None\<close>.\<close>

definition poids_ok :: "pyval list \<Rightarrow> bool" where
  "poids_ok row \<longleftrightarrow> truthy (cell_val (row ! 1)) \<and> cell_val (row ! 2) \<noteq> PNone"

text \<open>
  An entry of the weight table comes from a row that stores: its key is the text of the
  reference, its weight is the value cleaned to three decimals, or 0 when the value is
  not true.
\<close>

definition poids_from :: "host \<Rightarrow> pyval list list \<Rightarrow> ustr \<times> pyval \<Rightarrow> bool" where
  "poids_from h rows kw \<longleftrightarrow>
     (\<exists>row \<in> set rows. poids_ok row \<and> fst kw = py_str h (cell_val (row ! 1)) \<and>
        (if truthy (cell_val (row ! 2)) then clean_number (cell_val (row ! 2)) 3 = Inr (snd kw)
         else snd kw = PInt 0))"

text \<open>
  A small workbook: the five structural sheets, a tab of engravings for the specialised
  reader and a tab of urns for the generic one.
\<close>

definition gravures_tab :: ustr where
  "gravures_tab = ascii ''Gravures.PrixAdh.'' @ [8364] @ ascii ''HT''"

definition urnes_tab :: ustr where
  "urnes_tab = ascii ''Urnes.PrixAdh.'' @ [8364] @ ascii ''HT''"

definition visible_sheet :: "pyval list list \<Rightarrow> sheet" where
  "visible_sheet rows = \<lparr>sheet_state = Some (ascii ''visible''), cells = rows\<rparr>"

definition example_wb :: workbook where
  "example_wb =
     [(ascii ''GRANITS'',
       visible_sheet [[PStr (ascii ''Code''), PStr (ascii ''Granit''), PStr (ascii ''Origine'')],
                      [PInt 12, PStr (ascii ''Noir''), PStr (ascii ''Inde'')]]),
      (ascii ''Poids'',
       visible_sheet [[PNone, PStr (ascii ''Ref''), PStr (ascii ''Poids'')],
                      [PNone, PStr (ascii ''PHGA''), PFloat (Fin (12503 / 5000))],
                      [PNone, PStr (ascii ''PHGB''), PInt 0],
                      [PNone, PStr (ascii ''PHGC''), PNone]]),
      (ascii ''Tarif TFranco'',
       visible_sheet [[PStr (ascii ''Zone'')],
                      [PStr (ascii ''Zone 1''), PInt 100, PInt 90, PInt 80, PInt 70, PInt 60,
                       PInt 50]]),
      (ascii ''Zone.TFranco'',
       visible_sheet [[PStr (ascii ''Zone 1'')],
                      [PInt 5, PStr (ascii ''2A''), PNone, PNone, PNone, PInt 971]]),
      (ascii ''LISTES'',
       visible_sheet [[PStr (ascii ''Dep'')],
                      [PInt 5, PStr (ascii ''Zone 1''), PStr (ascii ''Monument''),
                       PStr (ascii ''Classique''), PNone]]),
      (gravures_tab,
       visible_sheet [[PNone, PStr (ascii ''Ref''), PStr (ascii ''Prix'')],
                      [PNone, PStr (ascii ''GR1''), PFloat (Fin (5 / 2))],
                      [PNone, PStr (ascii ''GR2''), PNone]]),
      (urnes_tab,
       visible_sheet [[PStr (ascii ''R'' @ [233] @ ascii ''f'' @ [233] @ ascii ''rence''),
                       PStr (ascii ''Prix'')],
                      [PStr (ascii ''U1''), PNone]])]"

text \<open>
  The columns of the four specialised readers, by product type: the index of the
  reference cell, the index of the price cell and the field the price is stored under.
\<close>

definition product_columns :: "ustr \<Rightarrow> nat \<times> nat \<times> ustr" where
  "product_columns product_type =
     (if product_type = ascii ''Accessoire'' then (2, 6, ascii ''prix_ht'')
      else if product_type = ascii ''Gravure'' then (1, 2, ascii ''prix_caractere_ht'')
      else (1, 5, ascii ''prix_ht''))"

definition specialised_types :: "ustr list" where
  "specialised_types = [ascii ''Monument'', ascii ''Semelle'', ascii ''Accessoire'', ascii ''Gravure'']"

text \<open>A row of a monument tab whose price cell holds a text instead of a number.\<close>

definition text_price_row :: "pyval list" where
  "text_price_row =
     [PStr (ascii ''Classique''), PStr (ascii ''PHGA''), PNone, PInt 12, PStr (ascii ''Noir''),
      PStr (ascii ''sur devis''), PNone, PNone, PNone]"

definition text_price_wb :: workbook where
  "text_price_wb = [(ascii ''Monument'', visible_sheet [[], text_price_row])]"

text \<open>
  An item that stands for a row: its reference is the text of the reference cell of the
  row, and it has a price, under the field of its reader, that is not \<^verbatim>\<open>None\<close>.
\<close>

definition item_of_row :: "host \<Rightarrow> nat \<Rightarrow> ustr \<Rightarrow> pyval list \<Rightarrow> item \<Rightarrow> bool" where
  "item_of_row h i pk row e \<longleftrightarrow>
     map_of e (ascii ''reference'') = Some (PStr (py_str h (cell_val (row ! i)))) \<and>
     (\<exists>p. map_of e pk = Some p \<and> p \<noteq> PNone)"

text \<open>The document that \<^verbatim>\<open>build_data\<close> assembles from the example workbook.\<close>

definition example_doc :: document where
  "example_doc =
     [(ascii ''granits'',
       Items [[(ascii ''code'', PInt 12), (ascii ''nom'', PStr (ascii ''Noir'')),
               (ascii ''origine'', PStr (ascii ''Inde''))]]),
      (ascii ''gravures'',
       Items [[(ascii ''reference'', PStr (ascii ''GR1'')),
               (ascii ''prix_caractere_ht'', PFloat (Fin (5 / 2)))]]),
      (ascii ''urnes'', Items [[(ascii ''reference'', PStr (ascii ''U1''))]]),
      (ascii ''monuments'', Items []),
      (ascii ''semelles'', Items []),
      (ascii ''accessoires'', Items []),
      (ascii ''lithos'', Items []),
      (ascii ''poids'',
       Table [(ascii ''PHGA'', PFloat (Fin (2501 / 1000))), (ascii ''PHGB'', PInt 0)]),
      (ascii ''zones_transport'',
       Table [(ascii ''05'', PStr (ascii ''Zone 1'')), (ascii ''2A'', PStr (ascii ''Zone 2'')),
              (ascii ''971'', PStr (ascii ''Zone 6''))]),
      (ascii ''tarifs_transport'',
       Items [[(ascii ''zone'', PStr (ascii ''Zone 1'')), (ascii ''0_3T'', PInt 100),
               (ascii ''3_5T'', PInt 90), (ascii ''5_8T'', PInt 80), (ascii ''8_10T'', PInt 70),
               (ascii ''10_15T'', PInt 60), (ascii ''minimum'', PInt 50)]]),
      (ascii ''departements'',
       Items [[(ascii ''departement'', PStr (ascii ''05'')),
               (ascii ''zone'', PStr (ascii ''Zone 1''))]]),
      (ascii ''types'', Strs [ascii ''Monument'']),
      (ascii ''lignes_monument'', Strs [ascii ''Classique'']),
      (ascii ''lignes_accessoire'', Strs [])]"

section \<open>Properties of \<^verbatim>\<open>clean_number\<close>\<close>














section \<open>Properties of \<^verbatim>\<open>extract_product_type\<close>\<close>

lemma ascii_simps: "ascii [] = []" "ascii (c # cs) = of_char c # ascii cs"
  by (simp_all add: ascii_def)

lemma ends_with_s: "ends_with base (ascii ''s'') \<longleftrightarrow> base \<noteq> [] \<and> last base = 115"
proof (cases base rule: rev_cases)
  case Nil
  then show ?thesis by (simp add: ends_with_def ascii_def)
next
  case (snoc xs x)
  then show ?thesis by (auto simp: ends_with_def ascii_def)
qed

lemma extract_product_type_base:
  assumes "46 \<notin> set base"
  shows "extract_product_type (base @ 46 # rest) =
         (if base \<noteq> [] \<and> last base = 115 \<and> base \<noteq> ascii ''Poids'' then butlast base else base)"
proof -
  have "takeWhile (\<lambda>c. c \<noteq> 46) (base @ 46 # rest) = base"
    using assms by (induction base) auto
  then show ?thesis
    by (simp add: extract_product_type_def ends_with_s)
qed

text \<open>
  Claim C8. \<^verbatim>\<open>extract_product_type\<close> takes the part of the tab name before the first
  full stop and drops one final \<^verbatim>\<open>s\<close> from it, unless that part is \<^verbatim>\<open>Poids\<close>. So the
  tabs named \<^verbatim>\<open>Monument\<close>, \<^verbatim>\<open>Accessoires\<close> and \<^verbatim>\<open>Poids\<close> before the suffix
  \<^verbatim>\<open>.PrixAdh.\<close>, euro sign, \<^verbatim>\<open>HT\<close> give \<^verbatim>\<open>Monument\<close>, \<^verbatim>\<open>Accessoire\<close> and \<^verbatim>\<open>Poids\<close>.
\<close>

theorem extract_product_type_segment:
  "(46 \<notin> set base \<longrightarrow>
      extract_product_type (base @ 46 # rest) =
        (if base \<noteq> [] \<and> last base = 115 \<and> base \<noteq> ascii ''Poids'' then butlast base else base)) \<and>
   extract_product_type (ascii ''Monument.PrixAdh.'' @ [8364] @ ascii ''HT'') = ascii ''Monument'' \<and>
   extract_product_type (ascii ''Accessoires.PrixAdh.'' @ [8364] @ ascii ''HT'') = ascii ''Accessoire'' \<and>
   extract_product_type (ascii ''Poids.PrixAdh.'' @ [8364] @ ascii ''HT'') = ascii ''Poids''"
proof (intro conjI impI)
  assume "46 \<notin> set base"
  then show "extract_product_type (base @ 46 # rest) =
      (if base \<noteq> [] \<and> last base = 115 \<and> base \<noteq> ascii ''Poids'' then butlast base else base)"
    by (rule extract_product_type_base)
next
  show "extract_product_type (ascii ''Monument.PrixAdh.'' @ [8364] @ ascii ''HT'') = ascii ''Monument''"
    by (simp add: extract_product_type_def ascii_def ends_with_def)
next
  show "extract_product_type (ascii ''Accessoires.PrixAdh.'' @ [8364] @ ascii ''HT'') = ascii ''Accessoire''"
    by (simp add: extract_product_type_def ascii_def ends_with_def)
next
  show "extract_product_type (ascii ''Poids.PrixAdh.'' @ [8364] @ ascii ''HT'') = ascii ''Poids''"
    by (simp add: extract_product_type_def ascii_def ends_with_def)
qed

theorem extract_product_type_segment_witness:
  "46 \<notin> set (ascii ''Urnes'') \<and>
   extract_product_type (ascii ''Urnes'' @ 46 # ascii ''PrixAdh'') = ascii ''Urne''"
proof -
  have h: "46 \<notin> set (ascii ''Urnes'')"
    by (simp add: ascii_def)
  have "extract_product_type (ascii ''Urnes'' @ 46 # ascii ''PrixAdh'') =
        (if ascii ''Urnes'' \<noteq> [] \<and> last (ascii ''Urnes'') = 115 \<and> ascii ''Urnes'' \<noteq> ascii ''Poids''
         then butlast (ascii ''Urnes'') else ascii ''Urnes'')"
    using extract_product_type_segment [of "ascii ''Urnes''" "ascii ''PrixAdh''"] h by blast
  also have "\<dots> = ascii ''Urne''"
    by (simp add: ascii_def)
  finally show ?thesis using h by simp
qed

section \<open>Properties of \<^verbatim>\<open>normalize_ref\<close>\<close>

lemma hyphen_not_space: "\<not> py_isspace 45"
  by (simp add: py_isspace_def)

lemma sub_hyphen_match:
  assumes "dropWhile py_isspace (c # cs) = 45 # r"
  shows "sub_hyphen (c # cs) = 45 # sub_hyphen (dropWhile py_isspace r)"
  using assms by (simp only: sub_hyphen.simps list.case simp_thms if_True)

lemma sub_hyphen_keep:
  assumes "\<And>r. dropWhile py_isspace (c # cs) \<noteq> 45 # r"
  shows "sub_hyphen (c # cs) = c # sub_hyphen cs"
proof (cases "dropWhile py_isspace (c # cs)")
  case Nil
  then show ?thesis by (simp only: sub_hyphen.simps list.case)
next
  case (Cons x r)
  with assms have "x \<noteq> 45" by auto
  with Cons show ?thesis by (simp only: sub_hyphen.simps list.case if_False)
qed

lemma filter_dropWhile_space:
  "filter (\<lambda>c. \<not> py_isspace c) (dropWhile py_isspace s) = filter (\<lambda>c. \<not> py_isspace c) s"
  by (induction s) auto

lemma filter_sub_hyphen:
  "filter (\<lambda>c. \<not> py_isspace c) (sub_hyphen s) = filter (\<lambda>c. \<not> py_isspace c) s"
proof (induction s rule: sub_hyphen.induct)
  case 1
  show ?case by simp
next
  case (2 c cs)
  let ?nw = "\<lambda>c. \<not> py_isspace c"
  show ?case
  proof (cases "\<exists>r. dropWhile py_isspace (c # cs) = 45 # r")
    case True
    then obtain r where r: "dropWhile py_isspace (c # cs) = 45 # r" by blast
    have "filter ?nw (sub_hyphen (c # cs)) = 45 # filter ?nw (sub_hyphen (dropWhile py_isspace r))"
      using sub_hyphen_match [OF r] hyphen_not_space by simp
    also have "\<dots> = 45 # filter ?nw (dropWhile py_isspace r)"
      using 2(2) [OF r refl] by simp
    also have "\<dots> = 45 # filter ?nw r"
      by (simp only: filter_dropWhile_space)
    also have "\<dots> = filter ?nw (dropWhile py_isspace (c # cs))"
      using hyphen_not_space by (simp add: r del: dropWhile.simps)
    also have "\<dots> = filter ?nw (c # cs)"
      by (rule filter_dropWhile_space)
    finally show ?thesis .
  next
    case False
    then have keep: "sub_hyphen (c # cs) = c # sub_hyphen cs"
      by (intro sub_hyphen_keep) blast
    have "filter ?nw (sub_hyphen cs) = filter ?nw cs"
    proof (cases "dropWhile py_isspace (c # cs)")
      case Nil
      then show ?thesis by (rule 2(1))
    next
      case (Cons x r)
      with False have "x \<noteq> 45" by auto
      with Cons show ?thesis by (rule 2(3))
    qed
    with keep show ?thesis by simp
  qed
qed

text \<open>The first character of the result.\<close>

lemma sub_hyphen_Nil_iff: "sub_hyphen s = [] \<longleftrightarrow> s = []"
proof (cases s)
  case Nil
  then show ?thesis by simp
next
  case (Cons c cs)
  show ?thesis
  proof (cases "\<exists>r. dropWhile py_isspace (c # cs) = 45 # r")
    case True
    then show ?thesis using Cons sub_hyphen_match by auto
  next
    case False
    then have "sub_hyphen (c # cs) = c # sub_hyphen cs"
      by (intro sub_hyphen_keep) blast
    then show ?thesis using Cons by simp
  qed
qed

lemma hd_sub_hyphen:
  "hd (sub_hyphen (c # cs)) = (if \<exists>r. dropWhile py_isspace (c # cs) = 45 # r then 45 else c)"
proof (cases "\<exists>r. dropWhile py_isspace (c # cs) = 45 # r")
  case True
  then show ?thesis using sub_hyphen_match by auto
next
  case False
  then have "sub_hyphen (c # cs) = c # sub_hyphen cs"
    by (intro sub_hyphen_keep) blast
  then show ?thesis using False by simp
qed

lemma hyphens_bare_Cons:
  "hyphens_bare (a # s) \<longleftrightarrow>
     (s = [] \<or> (\<not> (a = 45 \<and> py_isspace (hd s)) \<and> \<not> (py_isspace a \<and> hd s = 45) \<and> hyphens_bare s))"
  by (cases s) auto

lemma hyphens_bare_sub_hyphen: "hyphens_bare (sub_hyphen s)"
proof (induction s rule: sub_hyphen.induct)
  case 1
  show ?case by simp
next
  case (2 c cs)
  show ?case
  proof (cases "\<exists>r. dropWhile py_isspace (c # cs) = 45 # r")
    case True
    then obtain r where r: "dropWhile py_isspace (c # cs) = 45 # r" by blast
    let ?t = "dropWhile py_isspace r"
    have ih: "hyphens_bare (sub_hyphen ?t)"
      using 2(2) [OF r refl] .
    have "\<not> py_isspace (hd (sub_hyphen ?t))" if ne: "sub_hyphen ?t \<noteq> []"
    proof -
      from ne obtain x xs where t: "?t = x # xs"
        by (cases ?t) auto
      then have "\<not> py_isspace x"
        by (metis hd_dropWhile list.sel(1) list.distinct(1))
      then show ?thesis
        using hd_sub_hyphen [of x xs] hyphen_not_space by (auto simp: t)
    qed
    then show ?thesis
      using ih hyphen_not_space by (auto simp: sub_hyphen_match [OF r] hyphens_bare_Cons)
  next
    case False
    then have keep: "sub_hyphen (c # cs) = c # sub_hyphen cs"
      by (intro sub_hyphen_keep) blast
    have c: "c \<noteq> 45"
      using False hyphen_not_space by auto
    have ih: "hyphens_bare (sub_hyphen cs)"
    proof (cases "dropWhile py_isspace (c # cs)")
      case Nil
      then show ?thesis by (rule 2(1))
    next
      case (Cons x r)
      with False have "x \<noteq> 45" by auto
      with Cons show ?thesis by (rule 2(3))
    qed
    have "hd (sub_hyphen cs) \<noteq> 45" if sp: "py_isspace c" and ne: "sub_hyphen cs \<noteq> []"
    proof -
      from ne obtain x xs where cs: "cs = x # xs"
        by (cases cs) auto
      have "dropWhile py_isspace (c # cs) = dropWhile py_isspace (x # xs)"
        using sp cs by simp
      with False have no: "\<not> (\<exists>r. dropWhile py_isspace (x # xs) = 45 # r)" by simp
      then have "x \<noteq> 45" using hyphen_not_space by auto
      then show ?thesis
        using hd_sub_hyphen [of x xs] no by (simp add: cs)
    qed
    then show ?thesis
      using ih c by (auto simp: keep hyphens_bare_Cons)
  qed
qed

lemma dropWhile_space_append:
  "\<not> py_isspace c \<Longrightarrow> dropWhile py_isspace (a @ c # b) = dropWhile py_isspace a @ c # b"
  by (induction a) auto

lemma sub_hyphen_spaces: "list_all py_isspace w \<Longrightarrow> sub_hyphen w = w"
proof (induction w)
  case Nil
  show ?case by simp
next
  case (Cons c w)
  then have "dropWhile py_isspace (c # w) = []"
    by (simp add: list_all_iff)
  then have "sub_hyphen (c # w) = c # sub_hyphen w"
    by (intro sub_hyphen_keep) simp
  with Cons show ?case by simp
qed

lemma sub_hyphen_split:
  assumes c: "ordinary c"
  shows "sub_hyphen (a @ c # b) = sub_hyphen a @ c # sub_hyphen b"
proof (induction a rule: sub_hyphen.induct)
  case 1
  have "\<And>r. dropWhile py_isspace (c # b) \<noteq> 45 # r"
    using c by (simp add: ordinary_def)
  then show ?case by (simp add: sub_hyphen_keep)
next
  case (2 x xs)
  have ns: "\<not> py_isspace c" using c by (simp add: ordinary_def)
  have dw: "dropWhile py_isspace ((x # xs) @ c # b) = dropWhile py_isspace (x # xs) @ c # b"
    using ns by (rule dropWhile_space_append)
  show ?case
  proof (cases "\<exists>r. dropWhile py_isspace (x # xs) = 45 # r")
    case True
    then obtain r where r: "dropWhile py_isspace (x # xs) = 45 # r" by blast
    have "dropWhile py_isspace (x # xs @ c # b) = 45 # (r @ c # b)"
      using dw r by simp
    then have "sub_hyphen (x # xs @ c # b) = 45 # sub_hyphen (dropWhile py_isspace (r @ c # b))"
      by (rule sub_hyphen_match)
    also have "dropWhile py_isspace (r @ c # b) = dropWhile py_isspace r @ c # b"
      using ns by (rule dropWhile_space_append)
    also have "sub_hyphen (dropWhile py_isspace r @ c # b) =
               sub_hyphen (dropWhile py_isspace r) @ c # sub_hyphen b"
      using 2(2) [OF r refl] .
    finally show ?thesis
      using sub_hyphen_match [OF r] by simp
  next
    case False
    then have keep: "sub_hyphen (x # xs) = x # sub_hyphen xs"
      by (intro sub_hyphen_keep) blast
    have "\<And>r. dropWhile py_isspace (x # xs @ c # b) \<noteq> 45 # r"
    proof
      fix r assume e: "dropWhile py_isspace (x # xs @ c # b) = 45 # r"
      show False
      proof (cases "dropWhile py_isspace (x # xs)")
        case Nil
        with dw e c show False by (simp add: ordinary_def)
      next
        case (Cons y ys)
        with dw e have "y = 45" by simp
        with Cons False show False by blast
      qed
    qed
    then have keep': "sub_hyphen (x # xs @ c # b) = x # sub_hyphen (xs @ c # b)"
      by (rule sub_hyphen_keep)
    have "sub_hyphen (xs @ c # b) = sub_hyphen xs @ c # sub_hyphen b"
    proof (cases "dropWhile py_isspace (x # xs)")
      case Nil
      then show ?thesis by (rule 2(1))
    next
      case (Cons y ys)
      with False have "y \<noteq> 45" by auto
      with Cons show ?thesis by (rule 2(3))
    qed
    with keep keep' show ?thesis by simp
  qed
qed

lemma sub_hyphen_collapse:
  assumes "list_all py_isspace w1" "list_all py_isspace w2" "\<not> py_isspace d"
  shows "sub_hyphen (w1 @ 45 # w2 @ d # b) = 45 # sub_hyphen (d # b)"
proof -
  have dw: "dropWhile py_isspace (w1 @ 45 # w2 @ d # b) = 45 # w2 @ d # b"
    using assms(1) hyphen_not_space by (induction w1) auto
  have dw2: "dropWhile py_isspace (w2 @ d # b) = d # b"
    using assms(2,3) by (induction w2) auto
  obtain x xs where x: "w1 @ 45 # w2 @ d # b = x # xs"
    by (cases "w1 @ 45 # w2 @ d # b") auto
  show ?thesis
    using sub_hyphen_match [of x xs "w2 @ d # b"] dw dw2 x by simp
qed


lemma py_strip_Cons: "\<not> py_isspace d \<Longrightarrow> py_strip (d # b) = d # rstrip b"
proof -
  assume d: "\<not> py_isspace d"
  have "dropWhile py_isspace (rev b @ [d]) = dropWhile py_isspace (rev b) @ [d]"
    using d by (rule dropWhile_space_append)
  with d show ?thesis by (simp add: py_strip_def rstrip_def)
qed

lemma py_strip_snoc:
  "\<not> py_isspace c \<Longrightarrow> py_strip (a @ [c]) = dropWhile py_isspace a @ [c]"
proof -
  assume c: "\<not> py_isspace c"
  have "dropWhile py_isspace (a @ [c]) = dropWhile py_isspace a @ [c]"
    using c by (rule dropWhile_space_append)
  with c show ?thesis by (simp add: py_strip_def)
qed

lemma py_strip_mid:
  assumes "\<not> py_isspace c" "\<not> py_isspace d"
  shows "py_strip (a @ c # m @ d # b) = dropWhile py_isspace a @ c # m @ d # rstrip b"
proof -
  have 1: "dropWhile py_isspace (a @ c # m @ d # b) = dropWhile py_isspace a @ c # m @ d # b"
    using assms(1) by (rule dropWhile_space_append)
  have "rev (dropWhile py_isspace a @ c # m @ d # b) = rev b @ d # (rev m @ c # rev (dropWhile py_isspace a))"
    by simp
  moreover have "dropWhile py_isspace (rev b @ d # (rev m @ c # rev (dropWhile py_isspace a))) =
      dropWhile py_isspace (rev b) @ d # (rev m @ c # rev (dropWhile py_isspace a))"
    using assms(2) by (rule dropWhile_space_append)
  ultimately show ?thesis
    by (simp add: py_strip_def rstrip_def 1)
qed

lemma normalize_ref_PStr: "normalize_ref h (PStr s) = sub_hyphen (py_strip s)"
  by (cases "s = []") (simp_all add: normalize_ref_def py_strip_def)

lemma normalize_ref_keeps:
  assumes "ordinary c" "ordinary d" "list_all py_isspace w"
  shows "normalize_ref h (PStr (a @ c # w @ d # b)) =
         normalize_ref h (PStr (a @ [c])) @ w @ normalize_ref h (PStr (d # b))"
proof -
  have nc: "\<not> py_isspace c" and nd: "\<not> py_isspace d"
    using assms by (simp_all add: ordinary_def)
  have "sub_hyphen (w @ d # rstrip b) = w @ d # sub_hyphen (rstrip b)"
    using sub_hyphen_split [OF assms(2)] sub_hyphen_spaces [OF assms(3)] by simp
  then have "sub_hyphen (dropWhile py_isspace a @ c # w @ d # rstrip b) =
        sub_hyphen (dropWhile py_isspace a) @ c # w @ d # sub_hyphen (rstrip b)"
    using sub_hyphen_split [OF assms(1)] by simp
  moreover have "sub_hyphen (dropWhile py_isspace a @ [c]) = sub_hyphen (dropWhile py_isspace a) @ [c]"
    using sub_hyphen_split [OF assms(1), of _ "[]"] by simp
  moreover have "sub_hyphen (d # rstrip b) = d # sub_hyphen (rstrip b)"
    using sub_hyphen_split [OF assms(2), of "[]"] by simp
  ultimately show ?thesis
    by (simp add: normalize_ref_PStr py_strip_mid [OF nc nd] py_strip_snoc [OF nc] py_strip_Cons [OF nd])
qed

lemma normalize_ref_collapses:
  assumes "ordinary c" "ordinary d" "list_all py_isspace w1" "list_all py_isspace w2"
  shows "normalize_ref h (PStr (a @ c # w1 @ 45 # w2 @ d # b)) =
         normalize_ref h (PStr (a @ [c])) @ 45 # normalize_ref h (PStr (d # b))"
proof -
  have nc: "\<not> py_isspace c" and nd: "\<not> py_isspace d"
    using assms by (simp_all add: ordinary_def)
  have "sub_hyphen (w1 @ 45 # w2 @ d # rstrip b) = 45 # d # sub_hyphen (rstrip b)"
    using sub_hyphen_collapse [OF assms(3,4) nd] sub_hyphen_split [OF assms(2), of "[]"] by simp
  then have "sub_hyphen (dropWhile py_isspace a @ c # w1 @ 45 # w2 @ d # rstrip b) =
        sub_hyphen (dropWhile py_isspace a) @ c # 45 # d # sub_hyphen (rstrip b)"
    using sub_hyphen_split [OF assms(1)] by simp
  moreover have "sub_hyphen (dropWhile py_isspace a @ [c]) = sub_hyphen (dropWhile py_isspace a) @ [c]"
    using sub_hyphen_split [OF assms(1), of _ "[]"] by simp
  moreover have "sub_hyphen (d # rstrip b) = d # sub_hyphen (rstrip b)"
    using sub_hyphen_split [OF assms(2), of "[]"] by simp
  moreover have "py_strip (a @ c # w1 @ 45 # w2 @ d # b) =
                 dropWhile py_isspace a @ c # w1 @ 45 # w2 @ d # rstrip b"
    using py_strip_mid [OF nc nd, of a "w1 @ 45 # w2" b] by simp
  ultimately show ?thesis
    by (simp add: normalize_ref_PStr py_strip_snoc [OF nc] py_strip_Cons [OF nd])
qed

lemma filter_py_strip:
  "filter (\<lambda>c. \<not> py_isspace c) (py_strip s) = filter (\<lambda>c. \<not> py_isspace c) s"
proof -
  have "filter (\<lambda>c. \<not> py_isspace c) (rev (dropWhile py_isspace (rev t))) =
        filter (\<lambda>c. \<not> py_isspace c) t" for t
    using filter_dropWhile_space [of "rev t"] by (simp add: rev_filter [symmetric])
  then show ?thesis
    by (simp add: py_strip_def filter_dropWhile_space)
qed

lemma py_strip_surrounded:
  assumes "list_all py_isspace w1" "list_all py_isspace w2"
  shows "py_strip (w1 @ s @ w2) = py_strip s"
proof -
  have l: "dropWhile py_isspace (w @ t) = dropWhile py_isspace t" if "list_all py_isspace w" for w t
    using that by (induction w) auto
  show ?thesis
  proof (cases "list_all py_isspace s")
    case True
    then have a: "dropWhile py_isspace s = []"
      by (simp add: list_all_iff)
    have "list_all py_isspace (w1 @ s @ w2)"
      using assms True by simp
    then have b: "dropWhile py_isspace (w1 @ s @ w2) = []"
      by (simp add: list_all_iff)
    show ?thesis
      unfolding py_strip_def a b by simp
  next
    case False
    then have "dropWhile py_isspace (s @ w2) = dropWhile py_isspace s @ w2"
      by (induction s) auto
    then have 1: "dropWhile py_isspace (w1 @ s @ w2) = dropWhile py_isspace s @ w2"
      using l [OF assms(1)] by simp
    have "list_all py_isspace (rev w2)"
      using assms(2) by (simp add: list_all_iff)
    then have "dropWhile py_isspace (rev w2 @ rev (dropWhile py_isspace s)) =
               dropWhile py_isspace (rev (dropWhile py_isspace s))"
      by (rule l)
    then show ?thesis
      unfolding py_strip_def 1 by simp
  qed
qed

text \<open>
  Claim C4, as the code has it. \<^verbatim>\<open>normalize_ref\<close> gives the empty text for a value that
  is not true (\<^verbatim>\<open>None\<close>, the empty text). For a text it removes whitespace only; in the
  result no hyphen has whitespace next to it: whitespace around a hyphen, on either side,
  is collapsed into the bare hyphen. Whitespace at the two ends of the text is stripped.
  Whitespace between two ordinary characters stays as it is.
\<close>

theorem normalize_ref_collapses_around_hyphens:
  "(\<not> truthy ref \<longrightarrow> normalize_ref h ref = []) \<and>
   filter (\<lambda>c. \<not> py_isspace c) (normalize_ref h (PStr s)) = filter (\<lambda>c. \<not> py_isspace c) s \<and>
   hyphens_bare (normalize_ref h (PStr s)) \<and>
   (ordinary c \<and> ordinary d \<and> list_all py_isspace w1 \<and> list_all py_isspace w2 \<longrightarrow>
      normalize_ref h (PStr (a @ c # w1 @ 45 # w2 @ d # b)) =
        normalize_ref h (PStr (a @ [c])) @ 45 # normalize_ref h (PStr (d # b))) \<and>
   (ordinary c \<and> ordinary d \<and> list_all py_isspace w1 \<longrightarrow>
      normalize_ref h (PStr (a @ c # w1 @ d # b)) =
        normalize_ref h (PStr (a @ [c])) @ w1 @ normalize_ref h (PStr (d # b))) \<and>
   (list_all py_isspace w1 \<and> list_all py_isspace w2 \<longrightarrow>
      normalize_ref h (PStr (w1 @ s @ w2)) = normalize_ref h (PStr s)) \<and>
   normalize_ref h (PStr (ascii ''PHGA - CL - A'')) = ascii ''PHGA-CL-A'' \<and>
   normalize_ref h (PStr []) = [] \<and> normalize_ref h PNone = []"
proof (intro conjI impI)
  assume "\<not> truthy ref"
  then show "normalize_ref h ref = []"
    by (simp add: normalize_ref_def)
next
  show "filter (\<lambda>c. \<not> py_isspace c) (normalize_ref h (PStr s)) = filter (\<lambda>c. \<not> py_isspace c) s"
    by (simp only: normalize_ref_PStr filter_sub_hyphen filter_py_strip)
next
  show "hyphens_bare (normalize_ref h (PStr s))"
    by (simp only: normalize_ref_PStr hyphens_bare_sub_hyphen)
next
  assume "ordinary c \<and> ordinary d \<and> list_all py_isspace w1 \<and> list_all py_isspace w2"
  then show "normalize_ref h (PStr (a @ c # w1 @ 45 # w2 @ d # b)) =
      normalize_ref h (PStr (a @ [c])) @ 45 # normalize_ref h (PStr (d # b))"
    by (intro normalize_ref_collapses) simp_all
next
  assume "ordinary c \<and> ordinary d \<and> list_all py_isspace w1"
  then show "normalize_ref h (PStr (a @ c # w1 @ d # b)) =
      normalize_ref h (PStr (a @ [c])) @ w1 @ normalize_ref h (PStr (d # b))"
    by (intro normalize_ref_keeps) simp_all
next
  assume "list_all py_isspace w1 \<and> list_all py_isspace w2"
  then show "normalize_ref h (PStr (w1 @ s @ w2)) = normalize_ref h (PStr s)"
    by (simp add: normalize_ref_PStr py_strip_surrounded)
next
  show "normalize_ref h (PStr (ascii ''PHGA - CL - A'')) = ascii ''PHGA-CL-A''"
    by (simp add: normalize_ref_def ascii_def py_strip_def py_isspace_def sub_hyphen.simps(2))
next
  show "normalize_ref h (PStr []) = []"
    by (simp add: normalize_ref_def)
next
  show "normalize_ref h PNone = []"
    by (simp add: normalize_ref_def)
qed

theorem normalize_ref_collapses_around_hyphens_witness:
  "\<not> truthy (PInt 0) \<and> normalize_ref example_host (PInt 0) = [] \<and>
   ordinary 65 \<and> ordinary 66 \<and> list_all py_isspace [32, 9] \<and> list_all py_isspace [160] \<and>
   normalize_ref example_host (PStr (ascii ''X'' @ 65 # [32, 9] @ 45 # [160] @ 66 # ascii ''Y'')) =
     normalize_ref example_host (PStr (ascii ''X'' @ [65])) @
       45 # normalize_ref example_host (PStr (66 # ascii ''Y'')) \<and>
   normalize_ref example_host (PStr (ascii ''X'' @ 65 # [32, 9] @ 66 # ascii ''Y'')) =
     normalize_ref example_host (PStr (ascii ''X'' @ [65])) @ [32, 9] @
       normalize_ref example_host (PStr (66 # ascii ''Y'')) \<and>
   normalize_ref example_host (PStr ([32, 9] @ ascii ''A - B'' @ [160])) =
     normalize_ref example_host (PStr (ascii ''A - B''))"
proof -
  have hyps: "\<not> truthy (PInt 0)" "ordinary 65" "ordinary 66" "list_all py_isspace [32, 9]"
      "list_all py_isspace [160]"
    by (simp_all add: ordinary_def py_isspace_def)
  show ?thesis
    using normalize_ref_collapses_around_hyphens
      [of "PInt 0" example_host "ascii ''A - B''" 65 66 "[32, 9]" "[160]" "ascii ''X''" "ascii ''Y''"]
      hyps
    by blast
qed

text \<open>
  Claim C4, as it is stated, fails on whitespace that surrounds no hyphen: the text
  \<^verbatim>\<open>" A B"\<close> has no hyphen, and its leading blank is removed.
\<close>

theorem normalize_ref_strips_ends_counterexample:
  "45 \<notin> set (ascii '' A B'') \<and>
   normalize_ref example_host (PStr (ascii '' A B'')) = ascii ''A B'' \<and>
   ascii ''A B'' \<noteq> ascii '' A B''"
  by (simp add: normalize_ref_def ascii_def py_strip_def py_isspace_def sub_hyphen.simps(2))

section \<open>Properties of \<^verbatim>\<open>normalize_granit_name\<close>\<close>

lemma set_sub_runs: "set (sub_runs p f s) \<subseteq> insert 45 (set s)"
  by (induction p f s rule: sub_runs.induct) auto

lemma slug_chars: "list_all is_slug_char (slug_of_name s)"
proof -
  let ?x = "filter is_slug_char (sub_runs is_sep False (filter (\<lambda>c. \<not> is_apostrophe c)
      (sub_elision False (filter (\<lambda>c. \<not> is_Mn c) (nfd (py_lower s))))))"
  have "set (sub_runs (\<lambda>c. c = 45) False ?x) \<subseteq> insert 45 (set ?x)"
    by (rule set_sub_runs)
  moreover have "is_slug_char 45" by (simp add: is_slug_char_def)
  ultimately have "\<forall>c \<in> set (sub_runs (\<lambda>c. c = 45) False ?x). is_slug_char c"
    by auto
  moreover have "set (strip_hyphens t) \<subseteq> set t" for t
    unfolding strip_hyphens_def
    by (metis (no_types, lifting) set_dropWhileD set_rev subsetI)
  ultimately show ?thesis
    unfolding slug_of_name_def Let_def list_all_iff by blast
qed

lemma strip_hyphens_ends:
  "strip_hyphens t \<noteq> [] \<Longrightarrow> hd (strip_hyphens t) \<noteq> 45 \<and> last (strip_hyphens t) \<noteq> 45"
proof -
  assume ne: "strip_hyphens t \<noteq> []"
  let ?a = "dropWhile (\<lambda>c. c = 45) t"
  let ?b = "dropWhile (\<lambda>c. c = 45) (rev ?a)"
  have b: "?b \<noteq> []" using ne by (simp add: strip_hyphens_def)
  then have "hd ?b \<noteq> 45" by (metis (mono_tags, lifting) hd_dropWhile)
  then have l: "last (strip_hyphens t) \<noteq> 45"
    using b by (simp add: strip_hyphens_def last_rev)
  have a: "?a \<noteq> []"
  proof
    assume "?a = []"
    then have "?b = []" by (simp only: rev.simps(1) dropWhile.simps(1))
    with b show False by (simp only: not_True_eq_False simp_thms)
  qed
  then have ha: "hd ?a \<noteq> 45" by (metis (mono_tags, lifting) hd_dropWhile)
  have "last (rev ?a) = hd ?a" using a by (simp add: last_rev)
  have "\<exists>ys. rev ?a = ys @ ?b"
    by (metis takeWhile_dropWhile_id)
  then obtain ys where ys: "rev ?a = ys @ ?b" by blast
  then have "?a = rev ?b @ rev ys" by (metis rev_append rev_rev_ident)
  then have "hd ?a = hd (rev ?b)" using b by (metis hd_append2 rev_is_Nil_conv)
  with ha have "hd (strip_hyphens t) \<noteq> 45" by (simp add: strip_hyphens_def)
  with l show ?thesis by simp
qed

lemma slug_of_name_steps:
  "slug_of_name nom =
     strip_hyphens (sub_runs (\<lambda>c. c = 45) False (filter is_slug_char (sub_runs is_sep False
       (filter (\<lambda>c. \<not> is_apostrophe c) (sub_elision False
         (filter (\<lambda>c. \<not> is_Mn c) (nfd (py_lower nom))))))))"
  by (simp add: slug_of_name_def Let_def)

lemma slug_feuille:
  "slug_of_name (ascii ''Feuille d'' @ [39] @ ascii ''automne chinois'') =
   ascii ''feuille-automne-chinois''"
proof -
  have 1: "py_lower (ascii ''Feuille d'' @ [39] @ ascii ''automne chinois'') =
           ascii ''feuille d'' @ [39] @ ascii ''automne chinois''"
    by (simp add: ascii_def py_lower_def lower_char_def)
  have 2: "nfd (ascii ''feuille d'' @ [39] @ ascii ''automne chinois'') =
           ascii ''feuille d'' @ [39] @ ascii ''automne chinois''"
    by (simp add: ascii_def nfd_def nfd_table_def)
  have 3: "filter (\<lambda>c. \<not> is_Mn c) (ascii ''feuille d'' @ [39] @ ascii ''automne chinois'') =
           ascii ''feuille d'' @ [39] @ ascii ''automne chinois''"
    by (simp add: ascii_def is_Mn_def)
  have 4: "sub_elision False (ascii ''feuille d'' @ [39] @ ascii ''automne chinois'') =
           ascii ''feuille automne chinois''"
    by (simp add: ascii_def is_apostrophe_def py_isword_def is_Mn_def py_isspace_def)
  have 5: "filter (\<lambda>c. \<not> is_apostrophe c) (ascii ''feuille automne chinois'') =
           ascii ''feuille automne chinois''"
    by (simp add: ascii_def is_apostrophe_def)
  have 6: "sub_runs is_sep False (ascii ''feuille automne chinois'') =
           ascii ''feuille-automne-chinois''"
    by (simp add: ascii_def is_sep_def py_isspace_def)
  have 7: "filter is_slug_char (ascii ''feuille-automne-chinois'') =
           ascii ''feuille-automne-chinois''"
    by (simp add: ascii_def is_slug_char_def)
  have 8: "strip_hyphens (sub_runs (\<lambda>c. c = 45) False (ascii ''feuille-automne-chinois'')) =
           ascii ''feuille-automne-chinois''"
    by (simp add: ascii_def strip_hyphens_def)
  show ?thesis
    by (simp only: slug_of_name_steps 1 2 3 4 5 6 7 8)
qed

lemma slug_ete:
  "slug_of_name (ascii ''L'' @ [39] @ [201] @ ascii ''t'' @ [233] @ ascii '' / Or'') = ascii ''ete-or''"
proof -
  have 1: "py_lower (ascii ''L'' @ [39] @ [201] @ ascii ''t'' @ [233] @ ascii '' / Or'') =
           ascii ''l'' @ [39] @ [233] @ ascii ''t'' @ [233] @ ascii '' / or''"
    by (simp add: ascii_def py_lower_def lower_char_def)
  have 2: "nfd (ascii ''l'' @ [39] @ [233] @ ascii ''t'' @ [233] @ ascii '' / or'') =
           ascii ''l'' @ [39] @ [101, 769] @ ascii ''t'' @ [101, 769] @ ascii '' / or''"
    by (simp add: ascii_def nfd_def nfd_table_def)
  have 3: "filter (\<lambda>c. \<not> is_Mn c) (ascii ''l'' @ [39] @ [101, 769] @ ascii ''t'' @ [101, 769] @ ascii '' / or'') =
           ascii ''l'' @ [39] @ ascii ''ete / or''"
    by (simp add: ascii_def is_Mn_def)
  have 4: "sub_elision False (ascii ''l'' @ [39] @ ascii ''ete / or'') = ascii ''ete / or''"
    by (simp add: ascii_def is_apostrophe_def py_isword_def is_Mn_def py_isspace_def)
  have 5: "filter (\<lambda>c. \<not> is_apostrophe c) (ascii ''ete / or'') = ascii ''ete / or''"
    by (simp add: ascii_def is_apostrophe_def)
  have 6: "sub_runs is_sep False (ascii ''ete / or'') = ascii ''ete-or''"
    by (simp add: ascii_def is_sep_def py_isspace_def)
  have 7: "filter is_slug_char (ascii ''ete-or'') = ascii ''ete-or''"
    by (simp add: ascii_def is_slug_char_def)
  have 8: "strip_hyphens (sub_runs (\<lambda>c. c = 45) False (ascii ''ete-or'')) = ascii ''ete-or''"
    by (simp add: ascii_def strip_hyphens_def)
  show ?thesis
    by (simp only: slug_of_name_steps 1 2 3 4 5 6 7 8)
qed

lemma str_of_int_31: "str_of_int 31 = ascii ''31''"
  by (simp add: str_of_int_def digits_of_nat.simps ascii_def)

lemma normalize_granit_name_PStr:
  "nom \<noteq> [] \<Longrightarrow>
   normalize_granit_name h code (PStr nom) = Inr (py_str h code @ 45 # slug_of_name nom)"
  by (simp add: normalize_granit_name_def)

text \<open>
  Claim C5. \<^verbatim>\<open>normalize_granit_name\<close> of code 31 and the name \<^verbatim>\<open>Feuille d'automne chinois\<close>
  is \<^verbatim>\<open>31-feuille-automne-chinois\<close>: the name is lowercased, the elided article \<^verbatim>\<open>d'\<close> is
  removed and the blanks become hyphens; the accents of \<^verbatim>\<open>L'Ete / Or\<close>, written with
  acute accents, are stripped likewise. For every code, an empty name (or none) gives the
  code alone, as a text. For any other text the result is the code, a hyphen and a slug of
  lowercase letters, digits and hyphens that neither begins nor ends with a hyphen.
\<close>

theorem normalize_granit_name_slug:
  "normalize_granit_name h (PInt 31) (PStr (ascii ''Feuille d'' @ [39] @ ascii ''automne chinois'')) =
     Inr (ascii ''31-feuille-automne-chinois'') \<and>
   normalize_granit_name h (PInt 31) (PStr (ascii ''L'' @ [39] @ [201] @ ascii ''t'' @ [233] @ ascii '' / Or'')) =
     Inr (ascii ''31-ete-or'') \<and>
   normalize_granit_name h code (PStr []) = Inr (py_str h code) \<and>
   normalize_granit_name h code PNone = Inr (py_str h code) \<and>
   (nom \<noteq> [] \<longrightarrow>
      normalize_granit_name h code (PStr nom) = Inr (py_str h code @ 45 # slug_of_name nom) \<and>
      list_all is_slug_char (slug_of_name nom) \<and>
      (slug_of_name nom \<noteq> [] \<longrightarrow> hd (slug_of_name nom) \<noteq> 45 \<and> last (slug_of_name nom) \<noteq> 45))"
proof (intro conjI impI)
  show "normalize_granit_name h (PInt 31) (PStr (ascii ''Feuille d'' @ [39] @ ascii ''automne chinois'')) =
     Inr (ascii ''31-feuille-automne-chinois'')"
  proof -
    have "ascii ''Feuille d'' @ [39] @ ascii ''automne chinois'' \<noteq> []"
      by (simp add: ascii_def)
    then have "normalize_granit_name h (PInt 31)
                 (PStr (ascii ''Feuille d'' @ [39] @ ascii ''automne chinois'')) =
               Inr (py_str h (PInt 31) @ 45 #
                 slug_of_name (ascii ''Feuille d'' @ [39] @ ascii ''automne chinois''))"
      by (rule normalize_granit_name_PStr)
    also have "\<dots> = Inr (ascii ''31'' @ 45 # ascii ''feuille-automne-chinois'')"
      by (simp only: slug_feuille py_str.simps str_of_int_31)
    also have "\<dots> = Inr (ascii ''31-feuille-automne-chinois'')"
      by (simp add: ascii_def)
    finally show ?thesis .
  qed
next
  show "normalize_granit_name h (PInt 31) (PStr (ascii ''L'' @ [39] @ [201] @ ascii ''t'' @ [233] @ ascii '' / Or'')) =
     Inr (ascii ''31-ete-or'')"
  proof -
    have "ascii ''L'' @ [39] @ [201] @ ascii ''t'' @ [233] @ ascii '' / Or'' \<noteq> []"
      by (simp add: ascii_def)
    then have "normalize_granit_name h (PInt 31)
                 (PStr (ascii ''L'' @ [39] @ [201] @ ascii ''t'' @ [233] @ ascii '' / Or'')) =
               Inr (py_str h (PInt 31) @ 45 #
                 slug_of_name (ascii ''L'' @ [39] @ [201] @ ascii ''t'' @ [233] @ ascii '' / Or''))"
      by (rule normalize_granit_name_PStr)
    also have "\<dots> = Inr (ascii ''31'' @ 45 # ascii ''ete-or'')"
      by (simp only: slug_ete py_str.simps str_of_int_31)
    also have "\<dots> = Inr (ascii ''31-ete-or'')"
      by (simp add: ascii_def)
    finally show ?thesis .
  qed
next
  show "normalize_granit_name h code (PStr []) = Inr (py_str h code)"
    by (simp add: normalize_granit_name_def)
next
  show "normalize_granit_name h code PNone = Inr (py_str h code)"
    by (simp add: normalize_granit_name_def)
next
  assume "nom \<noteq> []"
  then show "normalize_granit_name h code (PStr nom) = Inr (py_str h code @ 45 # slug_of_name nom)"
    by (rule normalize_granit_name_PStr)
next
  show "list_all is_slug_char (slug_of_name nom)"
    by (rule slug_chars)
next
  assume "slug_of_name nom \<noteq> []"
  then show "hd (slug_of_name nom) \<noteq> 45" "last (slug_of_name nom) \<noteq> 45"
    using strip_hyphens_ends [of "sub_runs (\<lambda>c. c = 45) False (filter is_slug_char (sub_runs is_sep False
       (filter (\<lambda>c. \<not> is_apostrophe c) (sub_elision False
         (filter (\<lambda>c. \<not> is_Mn c) (nfd (py_lower nom)))))))"]
    by (simp_all only: slug_of_name_steps simp_thms)
qed

theorem normalize_granit_name_slug_witness:
  "ascii ''Noir'' \<noteq> [] \<and>
   normalize_granit_name example_host (PInt 31) (PStr (ascii ''Noir'')) =
     Inr (py_str example_host (PInt 31) @ 45 # slug_of_name (ascii ''Noir'')) \<and>
   slug_of_name (ascii ''Noir'') \<noteq> [] \<and>
   hd (slug_of_name (ascii ''Noir'')) \<noteq> 45 \<and> last (slug_of_name (ascii ''Noir'')) \<noteq> 45"
proof -
  have n: "ascii ''Noir'' \<noteq> []"
    by (simp add: ascii_def)
  have 1: "py_lower (ascii ''Noir'') = ascii ''noir''"
    by (simp add: ascii_def py_lower_def lower_char_def)
  have 2: "nfd (ascii ''noir'') = ascii ''noir''"
    by (simp add: ascii_def nfd_def nfd_table_def)
  have 3: "filter (\<lambda>c. \<not> is_Mn c) (ascii ''noir'') = ascii ''noir''"
    by (simp add: ascii_def is_Mn_def)
  have 4: "sub_elision False (ascii ''noir'') = ascii ''noir''"
    by (simp add: ascii_def is_apostrophe_def py_isword_def is_Mn_def py_isspace_def)
  have 5: "filter (\<lambda>c. \<not> is_apostrophe c) (ascii ''noir'') = ascii ''noir''"
    by (simp add: ascii_def is_apostrophe_def)
  have 6: "sub_runs is_sep False (ascii ''noir'') = ascii ''noir''"
    by (simp add: ascii_def is_sep_def py_isspace_def)
  have 7: "filter is_slug_char (ascii ''noir'') = ascii ''noir''"
    by (simp add: ascii_def is_slug_char_def)
  have 8: "strip_hyphens (sub_runs (\<lambda>c. c = 45) False (ascii ''noir'')) = ascii ''noir''"
    by (simp add: ascii_def strip_hyphens_def)
  have s: "slug_of_name (ascii ''Noir'') = ascii ''noir''"
    by (simp only: slug_of_name_steps 1 2 3 4 5 6 7 8)
  have ne: "slug_of_name (ascii ''Noir'') \<noteq> []"
    unfolding s by (simp add: ascii_def)
  show ?thesis
    using normalize_granit_name_slug [of example_host "PInt 31" "ascii ''Noir''"] n ne
    by blast
qed

section \<open>Loops and dictionaries\<close>

lemma bind_err_Inr_iff:
  "bind_err m f = Inr y \<longleftrightarrow> (\<exists>x. m = Inr x \<and> f x = Inr y)"
  by (cases m) (simp_all add: bind_err_def)

lemma fold_err_invariant:
  assumes "fold_err f xs s = Inr s'" and "P s"
    and "\<And>x s t. x \<in> set xs \<Longrightarrow> P s \<Longrightarrow> f x s = Inr t \<Longrightarrow> P t"
  shows "P s'"
  using assms
proof (induction xs arbitrary: s)
  case Nil
  then show ?case by simp
next
  case (Cons x xs)
  from Cons.prems(1) obtain t where t: "f x s = Inr t" "fold_err f xs t = Inr s'"
    by (auto simp: bind_err_Inr_iff)
  have "P t" using Cons.prems(2,3) t(1) by auto
  then show ?case
    using Cons.IH [OF t(2)] Cons.prems(3) by auto
qed

lemma keys_dict_set: "fst ` set (dict_set k v d) = insert k (fst ` set d)"
proof (induction d)
  case Nil
  show ?case by simp
next
  case (Cons p d)
  obtain k' v' where p: "p = (k', v')" by (cases p)
  show ?case
  proof (cases "k' = k")
    case True
    then show ?thesis by (simp add: p)
  next
    case False
    then show ?thesis using Cons.IH by (simp add: p insert_commute)
  qed
qed

lemma set_dict_set: "set (dict_set k v d) \<subseteq> insert (k, v) (set d)"
  by (induction d) (auto split: if_splits)

lemma map_of_dict_set: "map_of (dict_set k v d) k' = (if k' = k then Some v else map_of d k')"
  by (induction d) auto

section \<open>The weight table\<close>

lemma poids_row_cases:
  assumes "poids_row h row p = Inr p'"
  shows "3 \<le> length row \<and>
         (if poids_ok row
          then \<exists>w. p' = dict_set (py_str h (cell_val (row ! 1))) w p \<and>
                   (if truthy (cell_val (row ! 2)) then clean_number (cell_val (row ! 2)) 3 = Inr w
                    else w = PInt 0)
          else p' = p)"
  using assms
  by (auto simp: poids_row_def poids_ok_def Let_def bind_err_Inr_iff split: if_splits)

lemma fold_poids_keys:
  "fold_err (poids_row h) rows p = Inr p' \<Longrightarrow>
   fst ` set p' = fst ` set p \<union> {py_str h (cell_val (row ! 1)) | row. row \<in> set rows \<and> poids_ok row}"
proof (induction rows arbitrary: p)
  case Nil
  then show ?case by simp
next
  case (Cons r rows)
  from Cons.prems obtain t where t: "poids_row h r p = Inr t" "fold_err (poids_row h) rows t = Inr p'"
    by (auto simp: bind_err_Inr_iff)
  have "fst ` set t = fst ` set p \<union> (if poids_ok r then {py_str h (cell_val (r ! 1))} else {})"
  proof (cases "poids_ok r")
    case True
    with poids_row_cases [OF t(1)] obtain w where "t = dict_set (py_str h (cell_val (r ! 1))) w p"
      by auto
    with True show ?thesis by (simp add: keys_dict_set)
  next
    case False
    with poids_row_cases [OF t(1)] show ?thesis by simp
  qed
  with Cons.IH [OF t(2)] show ?case by (cases "poids_ok r") auto
qed

lemma fold_poids_values:
  assumes "fold_err (poids_row h) rows [] = Inr p'"
  shows "\<forall>kw \<in> set p'. poids_from h rows kw"
proof -
  have "\<forall>kw \<in> set p'. poids_from h rows kw"
  proof (rule fold_err_invariant [OF assms, where P = "\<lambda>p. \<forall>kw \<in> set p. poids_from h rows kw"])
    show "\<forall>kw \<in> set []. poids_from h rows kw" by simp
  next
    fix x s t
    assume x: "x \<in> set rows" and s: "\<forall>kw \<in> set s. poids_from h rows kw"
      and t: "poids_row h x s = Inr t"
    show "\<forall>kw \<in> set t. poids_from h rows kw"
    proof (cases "poids_ok x")
      case False
      with poids_row_cases [OF t] s show ?thesis by simp
    next
      case True
      with poids_row_cases [OF t] obtain w where
        w: "t = dict_set (py_str h (cell_val (x ! 1))) w s"
           "if truthy (cell_val (x ! 2)) then clean_number (cell_val (x ! 2)) 3 = Inr w else w = PInt 0"
        by auto
      have "poids_from h rows (py_str h (cell_val (x ! 1)), w)"
        unfolding poids_from_def using x True w(2) by (intro bexI [of _ x]) auto
      then show ?thesis
        using s set_dict_set [of "py_str h (cell_val (x ! 1))" w s] w(1) by auto
    qed
  qed
  then show ?thesis .
qed

lemma find_photo_example: "find_photo example_host d b = None"
  by (simp add: find_photo_def example_host_def)

lemma wb_names:
  "map_of example_wb (ascii ''Poids'') = Some (visible_sheet [[PNone, PStr (ascii ''Ref''), PStr (ascii ''Poids'')],
                      [PNone, PStr (ascii ''PHGA''), PFloat (Fin (12503 / 5000))],
                      [PNone, PStr (ascii ''PHGB''), PInt 0],
                      [PNone, PStr (ascii ''PHGC''), PNone]])"
  by (simp add: example_wb_def gravures_tab_def urnes_tab_def ascii_def)

lemma cn: "clean_number (PFloat (Fin (12503 / 5000))) 3 = Inr (PFloat (Fin (2501 / 1000)))"
  by code_simp

lemma strip_ascii: "py_strip (ascii ''PHGA'') = ascii ''PHGA''" "py_strip (ascii ''PHGB'') = ascii ''PHGB''"
   "py_strip (ascii ''PHGC'') = ascii ''PHGC''"
  by (simp_all add: py_strip_def ascii_def py_isspace_def)

lemma read_poids_example:
  "read_poids example_host example_wb =
     Inr [(ascii ''PHGA'', PFloat (Fin (2501 / 1000))), (ascii ''PHGB'', PInt 0)]"
  unfolding read_poids_def wb_get_def wb_names
  by (simp add: bind_err_def data_rows_def visible_sheet_def poids_row_def cn
        ascii_def py_strip_def py_isspace_def)

lemma read_poids_Inr:
  assumes "read_poids h wb = Inr poids"
  shows "\<exists>ws. wb_get wb (ascii ''Poids'') = Inr ws \<and>
           fst ` set poids =
             {py_str h (cell_val (row ! 1)) | row. row \<in> set (data_rows ws) \<and> poids_ok row} \<and>
           (\<forall>kw \<in> set poids. poids_from h (data_rows ws) kw)"
proof -
  from assms obtain ws where ws: "wb_get wb (ascii ''Poids'') = Inr ws"
      and f: "fold_err (poids_row h) (data_rows ws) [] = Inr poids"
    by (auto simp: read_poids_def bind_err_Inr_iff)
  show ?thesis
    using ws fold_poids_keys [OF f] fold_poids_values [OF f] by simp
qed

text \<open>
  Claim C2, as the code has it. When \<^verbatim>\<open>read_poids\<close> returns, the keys of the weight table
  are exactly the references of the rows whose reference is true and whose value is not
  \<^verbatim>\<open>None\<close>, and every entry comes from such a row. A value that is not null but not true
  (0, 0.0, \<^verbatim>\<open>False\<close>) is stored as 0; a row whose value is absent stores nothing.
\<close>

theorem read_poids_entries:
  "(read_poids h wb = Inr poids \<longrightarrow>
      (\<exists>ws. wb_get wb (ascii ''Poids'') = Inr ws \<and>
         fst ` set poids =
           {py_str h (cell_val (row ! 1)) | row. row \<in> set (data_rows ws) \<and> poids_ok row} \<and>
         (\<forall>kw \<in> set poids. poids_from h (data_rows ws) kw))) \<and>
   (3 \<le> length r0 \<and> poids_ok r0 \<and> \<not> truthy (cell_val (r0 ! 2)) \<longrightarrow>
      poids_row h r0 p = Inr (dict_set (py_str h (cell_val (r0 ! 1))) (PInt 0) p)) \<and>
   (3 \<le> length r1 \<and> cell_val (r1 ! 2) = PNone \<longrightarrow> poids_row h r1 p = Inr p) \<and>
   poids_row h [PNone, PStr (ascii ''PHGB''), PInt 0] [] = Inr [(ascii ''PHGB'', PInt 0)] \<and>
   poids_row h [PNone, PStr (ascii ''PHGB''), PFloat (Fin 0)] [] = Inr [(ascii ''PHGB'', PInt 0)]"
proof (intro conjI impI)
  assume "read_poids h wb = Inr poids"
  then show "\<exists>ws. wb_get wb (ascii ''Poids'') = Inr ws \<and>
         fst ` set poids =
           {py_str h (cell_val (row ! 1)) | row. row \<in> set (data_rows ws) \<and> poids_ok row} \<and>
         (\<forall>kw \<in> set poids. poids_from h (data_rows ws) kw)"
    by (rule read_poids_Inr)
next
  assume "3 \<le> length r0 \<and> poids_ok r0 \<and> \<not> truthy (cell_val (r0 ! 2))"
  then show "poids_row h r0 p = Inr (dict_set (py_str h (cell_val (r0 ! 1))) (PInt 0) p)"
    by (simp add: poids_row_def poids_ok_def bind_err_def)
next
  assume "3 \<le> length r1 \<and> cell_val (r1 ! 2) = PNone"
  then show "poids_row h r1 p = Inr p"
    by (simp add: poids_row_def)
next
  show "poids_row h [PNone, PStr (ascii ''PHGB''), PInt 0] [] = Inr [(ascii ''PHGB'', PInt 0)]"
    by (simp add: poids_row_def bind_err_def ascii_def py_strip_def py_isspace_def)
next
  show "poids_row h [PNone, PStr (ascii ''PHGB''), PFloat (Fin 0)] [] = Inr [(ascii ''PHGB'', PInt 0)]"
    by (simp add: poids_row_def bind_err_def ascii_def py_strip_def py_isspace_def)
qed

theorem read_poids_entries_witness:
  "read_poids example_host example_wb =
     Inr [(ascii ''PHGA'', PFloat (Fin (2501 / 1000))), (ascii ''PHGB'', PInt 0)] \<and>
   (\<exists>ws. wb_get example_wb (ascii ''Poids'') = Inr ws \<and>
      fst ` set [(ascii ''PHGA'', PFloat (Fin (2501 / 1000))), (ascii ''PHGB'', PInt 0)] =
        {py_str example_host (cell_val (row ! 1)) | row. row \<in> set (data_rows ws) \<and> poids_ok row} \<and>
      (\<forall>kw \<in> set [(ascii ''PHGA'', PFloat (Fin (2501 / 1000))), (ascii ''PHGB'', PInt 0)].
         poids_from example_host (data_rows ws) kw)) \<and>
   3 \<le> length [PNone, PStr (ascii ''PHGB''), PBool False] \<and>
   poids_ok [PNone, PStr (ascii ''PHGB''), PBool False] \<and>
   \<not> truthy (cell_val ([PNone, PStr (ascii ''PHGB''), PBool False] ! 2)) \<and>
   poids_row example_host [PNone, PStr (ascii ''PHGB''), PBool False] [] =
     Inr (dict_set (py_str example_host (cell_val ([PNone, PStr (ascii ''PHGB''), PBool False] ! 1)))
            (PInt 0) []) \<and>
   3 \<le> length [PNone, PStr (ascii ''PHGC''), PStr (ascii '' '')] \<and>
   cell_val ([PNone, PStr (ascii ''PHGC''), PStr (ascii '' '')] ! 2) = PNone \<and>
   poids_row example_host [PNone, PStr (ascii ''PHGC''), PStr (ascii '' '')] [] = Inr []"
proof -
  have h0: "3 \<le> length [PNone, PStr (ascii ''PHGB''), PBool False] \<and>
            poids_ok [PNone, PStr (ascii ''PHGB''), PBool False] \<and>
            \<not> truthy (cell_val ([PNone, PStr (ascii ''PHGB''), PBool False] ! 2))"
    by (simp add: poids_ok_def ascii_def py_strip_def py_isspace_def)
  have h1: "3 \<le> length [PNone, PStr (ascii ''PHGC''), PStr (ascii '' '')] \<and>
            cell_val ([PNone, PStr (ascii ''PHGC''), PStr (ascii '' '')] ! 2) = PNone"
    by (simp add: ascii_def py_strip_def py_isspace_def)
  show ?thesis
    using read_poids_entries
      [of example_host example_wb
          "[(ascii ''PHGA'', PFloat (Fin (2501 / 1000))), (ascii ''PHGB'', PInt 0)]"
          "[PNone, PStr (ascii ''PHGB''), PBool False]" "[]"
          "[PNone, PStr (ascii ''PHGC''), PStr (ascii '' '')]"]
      read_poids_example h0 h1
    by blast
qed

text \<open>
  Claim C2, as it is stated, fails for an absent value: the reference \<^verbatim>\<open>PHGC\<close> with an
  empty value cell gets no entry, not a stored 0.
\<close>

theorem read_poids_absent_value_counterexample:
  "read_poids example_host
     [(ascii ''Poids'', visible_sheet [[], [PNone, PStr (ascii ''PHGC''), PNone]])] = Inr [] \<and>
   map_of ([] :: item) (ascii ''PHGC'') \<noteq> Some (PInt 0)"
  by (simp add: read_poids_def wb_get_def bind_err_def data_rows_def visible_sheet_def
      poids_row_def ascii_def py_strip_def py_isspace_def)

section \<open>Department codes\<close>

lemma cell_in_row: "cell row i = Inr v \<Longrightarrow> v \<in> set row"
  by (auto simp: cell_def split: if_splits)

lemma zone_cols_keys:
  "zone_cols row cols z = Inr z' \<Longrightarrow> k \<in> fst ` set z' \<Longrightarrow>
   k \<in> fst ` set z \<or> (\<exists>v \<in> set row. dept_code (cell_val v) = Inr k)"
proof (induction cols arbitrary: z)
  case Nil
  then show ?case by simp
next
  case (Cons i cols)
  from Cons.prems(1) obtain v where v: "cell row i = Inr v"
    and rest: "(if cell_val v \<noteq> PNone
                then bind_err (dept_code (cell_val v)) (\<lambda>dept_str.
                       zone_cols row cols
                         (dict_set dept_str (ascii ''Zone '' @ str_of_int (int i + 1)) z))
                else zone_cols row cols z) = Inr z'"
    by (auto simp: bind_err_Inr_iff Let_def)
  show ?case
  proof (cases "cell_val v \<noteq> PNone")
    case False
    with rest have "zone_cols row cols z = Inr z'" by simp
    from Cons.IH [OF this Cons.prems(2)] show ?thesis .
  next
    case True
    with rest obtain s where s: "dept_code (cell_val v) = Inr s"
      and r: "zone_cols row cols (dict_set s (ascii ''Zone '' @ str_of_int (int i + 1)) z) = Inr z'"
      by (auto simp: bind_err_Inr_iff)
    from Cons.IH [OF r Cons.prems(2)] show ?thesis
      using s cell_in_row [OF v] by (auto simp: keys_dict_set)
  qed
qed

lemma read_zones_transport_keys:
  assumes "read_zones_transport wb = Inr zones" "k \<in> fst ` set zones"
  shows "\<exists>ws row v. wb_get wb (ascii ''Zone.TFranco'') = Inr ws \<and> row \<in> set (data_rows ws) \<and>
           v \<in> set row \<and> dept_code (cell_val v) = Inr k"
proof -
  from assms(1) obtain ws where ws: "wb_get wb (ascii ''Zone.TFranco'') = Inr ws"
    and f: "fold_err (\<lambda>row. zone_cols row [0 ..< 6]) (data_rows ws) [] = Inr zones"
    by (auto simp: read_zones_transport_def bind_err_Inr_iff)
  let ?Q = "\<lambda>k. \<exists>row \<in> set (data_rows ws). \<exists>v \<in> set row. dept_code (cell_val v) = Inr k"
  have "\<forall>k \<in> fst ` set zones. ?Q k"
  proof (rule fold_err_invariant [OF f, where P = "\<lambda>z. \<forall>k \<in> fst ` set z. ?Q k"])
    show "\<forall>k \<in> fst ` set []. ?Q k" by simp
  next
    fix x s t
    assume x: "x \<in> set (data_rows ws)" and s: "\<forall>k \<in> fst ` set s. ?Q k"
      and t: "zone_cols x [0 ..< 6] s = Inr t"
    show "\<forall>k \<in> fst ` set t. ?Q k"
    proof
      fix k assume "k \<in> fst ` set t"
      from zone_cols_keys [OF t this] show "?Q k"
        using s x by blast
    qed
  qed
  with assms(2) ws show ?thesis by blast
qed

lemma liste_row_deps:
  assumes "liste_row h row (ty, lm, la, deps) = Inr (ty', lm', la', deps')" "d \<in> set deps'"
  shows "d \<in> set deps \<or>
         (row \<noteq> [] \<and> (\<exists>k. dept_code (cell_val (row ! 0)) = Inr k \<and>
            map_of d (ascii ''departement'') = Some (PStr k)))"
proof -
  from assms(1) have len: "5 \<le> length row"
    by (auto simp: liste_row_def split: if_splits)
  show ?thesis
  proof (cases "cell_val (row ! 0) \<noteq> PNone \<and> truthy (cell_val (row ! 1))")
    case False
    with assms len show ?thesis
      by (auto simp: liste_row_def Let_def split: if_splits)
  next
    case True
    with assms(1) len obtain k where k: "dept_code (cell_val (row ! 0)) = Inr k"
      and d': "deps' = (if list_ex (\<lambda>d. map_of d (ascii ''departement'') = Some (PStr k)) deps
                 then deps
                 else deps @ [[(ascii ''departement'', PStr k),
                               (ascii ''zone'', PStr (py_str h (cell_val (row ! 1))))]])"
      by (auto simp: liste_row_def Let_def bind_err_Inr_iff split: if_splits)
    from assms(2) d' have "d \<in> set deps \<or>
        d = [(ascii ''departement'', PStr k), (ascii ''zone'', PStr (py_str h (cell_val (row ! 1))))]"
      by (auto split: if_splits)
    then show ?thesis
      using k len by auto
  qed
qed

lemma read_listes_deps:
  assumes "read_listes h wb = Inr (types, lm, la, deps)" "d \<in> set deps"
  shows "\<exists>ws row k. wb_get wb (ascii ''LISTES'') = Inr ws \<and> row \<in> set (data_rows ws) \<and>
           row \<noteq> [] \<and> dept_code (cell_val (row ! 0)) = Inr k \<and>
           map_of d (ascii ''departement'') = Some (PStr k)"
proof -
  from assms(1) obtain ws ty where ws: "wb_get wb (ascii ''LISTES'') = Inr ws"
    and f: "fold_err (liste_row h) (data_rows ws) ([], [], [], []) = Inr (ty, lm, la, deps)"
    by (auto simp: read_listes_def bind_err_Inr_iff split: prod.splits)
  let ?Q = "\<lambda>d. \<exists>row \<in> set (data_rows ws). row \<noteq> [] \<and>
              (\<exists>k. dept_code (cell_val (row ! 0)) = Inr k \<and>
                   map_of d (ascii ''departement'') = Some (PStr k))"
  have "\<forall>d \<in> set (snd (snd (snd (ty, lm, la, deps)))). ?Q d"
  proof (rule fold_err_invariant [OF f, where P = "\<lambda>st. \<forall>d \<in> set (snd (snd (snd st))). ?Q d"])
    show "\<forall>d \<in> set (snd (snd (snd ([], [], [], [])))). ?Q d" by simp
  next
    fix x s t
    assume x: "x \<in> set (data_rows ws)" and s: "\<forall>d \<in> set (snd (snd (snd s))). ?Q d"
      and t: "liste_row h x s = Inr t"
    obtain a b c ds where s': "s = (a, b, c, ds)" by (cases s) auto
    obtain a' b' c' ds' where t': "t = (a', b', c', ds')" by (cases t) auto
    show "\<forall>d \<in> set (snd (snd (snd t))). ?Q d"
    proof
      fix d assume "d \<in> set (snd (snd (snd t)))"
      then have "d \<in> set ds'" by (simp add: t')
      from liste_row_deps [OF t [unfolded s' t'] this] show "?Q d"
        using s x by (auto simp: s')
    qed
  qed
  then have "?Q d" using assms(2) by simp
  then obtain row k where "row \<in> set (data_rows ws)" "row \<noteq> []"
      "dept_code (cell_val (row ! 0)) = Inr k" "map_of d (ascii ''departement'') = Some (PStr k)"
    by blast
  with ws show ?thesis by blast
qed

text \<open>The text of a number.\<close>

lemma digits_of_nat_small: "n < 10 \<Longrightarrow> digits_of_nat n = [48 + n]"
  by (simp add: digits_of_nat.simps)

lemma digits_of_nat_not_Nil: "digits_of_nat n \<noteq> []"
  by (subst digits_of_nat.simps) simp

lemma length_digits_of_nat_large: "10 \<le> n \<Longrightarrow> 2 \<le> length (digits_of_nat n)"
proof -
  assume "10 \<le> n"
  then have "digits_of_nat n = digits_of_nat (n div 10) @ [48 + n mod 10]"
    by (subst digits_of_nat.simps) simp
  moreover have "1 \<le> length (digits_of_nat (n div 10))"
    using digits_of_nat_not_Nil [of "n div 10"] by (cases "digits_of_nat (n div 10)") auto
  ultimately show ?thesis by simp
qed

lemma dept_code_PStr:
  "dept_code (PStr t) = Inr (if length t = 1 \<and> is_digit_char (t ! 0) then [48, t ! 0] else t)"
proof (cases "length t = 1")
  case True
  then obtain c where "t = [c]" by (cases t) auto
  then show ?thesis
    by (simp add: dept_code_def bind_err_def pad_dept_def py_isdigit_def)
next
  case False
  then show ?thesis
    by (simp add: dept_code_def bind_err_def pad_dept_def)
qed

lemma dept_code_PInt:
  "dept_code (PInt n) = Inr (if 0 \<le> n \<and> n \<le> 9 then [48, 48 + nat n] else str_of_int n)"
proof (cases "0 \<le> n \<and> n \<le> 9")
  case True
  then have "nat n < 10" by linarith
  then have "digits_of_nat (nat n) = [48 + nat n]"
    by (rule digits_of_nat_small)
  then have "str_of_int n = [48 + nat n]"
    using True by (simp add: str_of_int_def)
  moreover have "nat n \<le> 9" using True by linarith
  then have "is_digit_char (48 + nat n)"
    by (simp add: is_digit_char_def)
  ultimately show ?thesis
    using True by (simp add: dept_code_def bind_err_def pad_dept_def py_isdigit_def)
next
  case False
  have "length (str_of_int n) \<noteq> 1"
  proof (cases "n < 0")
    case True
    then show ?thesis
      using digits_of_nat_not_Nil [of "nat (- n)"] by (simp add: str_of_int_def)
  next
    case nn: False
    with False have "10 \<le> nat n" by simp
    from length_digits_of_nat_large [OF this] nn show ?thesis
      by (simp add: str_of_int_def)
  qed
  then show ?thesis
    using False by (auto simp: dept_code_def bind_err_def pad_dept_def)
qed

lemma read_zones_transport_example:
  "read_zones_transport example_wb =
     Inr [(ascii ''05'', ascii ''Zone 1''), (ascii ''2A'', ascii ''Zone 2''),
          (ascii ''971'', ascii ''Zone 6'')]"
proof -
  have s: "map_of example_wb (ascii ''Zone.TFranco'') =
      Some (visible_sheet [[PStr (ascii ''Zone 1'')],
                      [PInt 5, PStr (ascii ''2A''), PNone, PNone, PNone, PInt 971]])"
    by (simp add: example_wb_def gravures_tab_def urnes_tab_def ascii_def)
  have u: "[0 ..< 6] = [0, 1, 2, 3, 4, 5]"
    by (simp add: upt_rec)
  have d: "str_of_int 971 = ascii ''971''" "str_of_int 1 = ascii ''1''" "str_of_int 2 = ascii ''2''"
      "str_of_int 6 = ascii ''6''"
    by (simp_all add: str_of_int_def digits_of_nat.simps ascii_def)
  show ?thesis
    unfolding read_zones_transport_def wb_get_def s u
    by (simp add: bind_err_def data_rows_def visible_sheet_def cell_def dept_code_PInt dept_code_PStr
        d is_digit_char_def)
       (simp add: ascii_def py_strip_def py_isspace_def)
qed

lemma read_listes_example:
  "read_listes example_host example_wb =
     Inr ([ascii ''Monument''], [ascii ''Classique''], [],
          [[(ascii ''departement'', PStr (ascii ''05'')), (ascii ''zone'', PStr (ascii ''Zone 1''))]])"
proof -
  have s: "map_of example_wb (ascii ''LISTES'') =
      Some (visible_sheet [[PStr (ascii ''Dep'')],
                      [PInt 5, PStr (ascii ''Zone 1''), PStr (ascii ''Monument''),
                       PStr (ascii ''Classique''), PNone]])"
    by (simp add: example_wb_def gravures_tab_def urnes_tab_def ascii_def)
  have o: "order_types [ascii ''Monument''] = [ascii ''Monument'']"
    by (simp add: order_types_def type_order_def ascii_def)
  have st: "py_strip (ascii ''Zone 1'') = ascii ''Zone 1''" "py_strip (ascii ''Monument'') = ascii ''Monument''"
      "py_strip (ascii ''Classique'') = ascii ''Classique''"
    by (simp_all add: ascii_def py_strip_def py_isspace_def)
  have ne: "ascii ''Zone 1'' \<noteq> []" "ascii ''Monument'' \<noteq> []" "ascii ''Classique'' \<noteq> []"
    by (simp_all add: ascii_def)
  have f: "liste_row example_host
        [PInt 5, PStr (ascii ''Zone 1''), PStr (ascii ''Monument''), PStr (ascii ''Classique''), PNone]
        ([], [], [], []) =
      Inr ([ascii ''Monument''], [ascii ''Classique''], [],
          [[(ascii ''departement'', PStr [48, 53]), (ascii ''zone'', PStr (ascii ''Zone 1''))]])"
    by (simp add: bind_err_def liste_row_def st ne add_new_def dept_code_PInt)
  have z: "[48, 53] = ascii ''05''"
    by (simp add: ascii_def)
  show ?thesis
    unfolding read_listes_def wb_get_def s
    by (simp add: bind_err_def data_rows_def visible_sheet_def f o z)
qed

text \<open>
  Claim C3, as the code has it. Every key of the zone map and every department of the
  lists is the department code of a cell of its sheet. The code of a text is the text,
  with one zero before it exactly when it is a single digit; the code of an integer from
  0 to 9 is a zero and its digit, and the code of any other integer is its decimal text;
  a float counts as its integer part. No code gets more than one zero.
\<close>

theorem dept_code_pads_single_digit:
  "(read_zones_transport wb = Inr zones \<and> k \<in> fst ` set zones \<longrightarrow>
      (\<exists>ws row v. wb_get wb (ascii ''Zone.TFranco'') = Inr ws \<and> row \<in> set (data_rows ws) \<and>
         v \<in> set row \<and> dept_code (cell_val v) = Inr k)) \<and>
   (read_listes h wb = Inr (types, lm, la, deps) \<and> d \<in> set deps \<longrightarrow>
      (\<exists>ws row k. wb_get wb (ascii ''LISTES'') = Inr ws \<and> row \<in> set (data_rows ws) \<and>
         row \<noteq> [] \<and> dept_code (cell_val (row ! 0)) = Inr k \<and>
         map_of d (ascii ''departement'') = Some (PStr k))) \<and>
   dept_code (PStr t) = Inr (if length t = 1 \<and> is_digit_char (t ! 0) then [48, t ! 0] else t) \<and>
   dept_code (PInt n) = Inr (if 0 \<le> n \<and> n \<le> 9 then [48, 48 + nat n] else str_of_int n) \<and>
   dept_code (PFloat (Fin q)) = dept_code (PInt (trunc_rat q))"
proof (intro conjI impI)
  assume "read_zones_transport wb = Inr zones \<and> k \<in> fst ` set zones"
  then show "\<exists>ws row v. wb_get wb (ascii ''Zone.TFranco'') = Inr ws \<and> row \<in> set (data_rows ws) \<and>
         v \<in> set row \<and> dept_code (cell_val v) = Inr k"
    using read_zones_transport_keys by blast
next
  assume "read_listes h wb = Inr (types, lm, la, deps) \<and> d \<in> set deps"
  then show "\<exists>ws row k. wb_get wb (ascii ''LISTES'') = Inr ws \<and> row \<in> set (data_rows ws) \<and>
         row \<noteq> [] \<and> dept_code (cell_val (row ! 0)) = Inr k \<and>
         map_of d (ascii ''departement'') = Some (PStr k)"
    using read_listes_deps by blast
next
  show "dept_code (PStr t) = Inr (if length t = 1 \<and> is_digit_char (t ! 0) then [48, t ! 0] else t)"
    by (rule dept_code_PStr)
next
  show "dept_code (PInt n) = Inr (if 0 \<le> n \<and> n \<le> 9 then [48, 48 + nat n] else str_of_int n)"
    by (rule dept_code_PInt)
next
  show "dept_code (PFloat (Fin q)) = dept_code (PInt (trunc_rat q))"
    by (simp add: dept_code_def)
qed

theorem dept_code_pads_single_digit_witness:
  "read_zones_transport example_wb =
     Inr [(ascii ''05'', ascii ''Zone 1''), (ascii ''2A'', ascii ''Zone 2''),
          (ascii ''971'', ascii ''Zone 6'')] \<and>
   ascii ''05'' \<in> fst ` set [(ascii ''05'', ascii ''Zone 1''), (ascii ''2A'', ascii ''Zone 2''),
          (ascii ''971'', ascii ''Zone 6'')] \<and>
   (\<exists>ws row v. wb_get example_wb (ascii ''Zone.TFranco'') = Inr ws \<and> row \<in> set (data_rows ws) \<and>
      v \<in> set row \<and> dept_code (cell_val v) = Inr (ascii ''05'')) \<and>
   read_listes example_host example_wb =
     Inr ([ascii ''Monument''], [ascii ''Classique''], [],
          [[(ascii ''departement'', PStr (ascii ''05'')), (ascii ''zone'', PStr (ascii ''Zone 1''))]]) \<and>
   (\<exists>ws row k. wb_get example_wb (ascii ''LISTES'') = Inr ws \<and> row \<in> set (data_rows ws) \<and>
      row \<noteq> [] \<and> dept_code (cell_val (row ! 0)) = Inr k \<and>
      map_of [(ascii ''departement'', PStr (ascii ''05'')), (ascii ''zone'', PStr (ascii ''Zone 1''))]
        (ascii ''departement'') = Some (PStr k))"
proof -
  have m: "ascii ''05'' \<in> fst ` set [(ascii ''05'', ascii ''Zone 1''), (ascii ''2A'', ascii ''Zone 2''),
          (ascii ''971'', ascii ''Zone 6'')]"
    by simp
  have d: "[(ascii ''departement'', PStr (ascii ''05'')), (ascii ''zone'', PStr (ascii ''Zone 1''))]
      \<in> set [[(ascii ''departement'', PStr (ascii ''05'')), (ascii ''zone'', PStr (ascii ''Zone 1''))]]"
    by simp
  show ?thesis
    using dept_code_pads_single_digit
      [of example_wb
          "[(ascii ''05'', ascii ''Zone 1''), (ascii ''2A'', ascii ''Zone 2''), (ascii ''971'', ascii ''Zone 6'')]"
          "ascii ''05''" example_host "[ascii ''Monument'']" "[ascii ''Classique'']" "[]"
          "[[(ascii ''departement'', PStr (ascii ''05'')), (ascii ''zone'', PStr (ascii ''Zone 1''))]]"
          "[(ascii ''departement'', PStr (ascii ''05'')), (ascii ''zone'', PStr (ascii ''Zone 1''))]"]
      read_zones_transport_example read_listes_example m d
    by blast
qed

text \<open>
  Claim C3, as it is stated, fails: the departments 971 and 2A come out of the zone map
  reader as \<^verbatim>\<open>971\<close>, three digits, and \<^verbatim>\<open>2A\<close>, not a number.
\<close>

theorem dept_code_three_digits_counterexample:
  "read_zones_transport
     [(ascii ''Zone.TFranco'',
       visible_sheet [[PStr (ascii ''Zone 1'')], [PInt 971, PStr (ascii ''2A''), PNone, PNone, PNone, PNone]])] =
     Inr [(ascii ''971'', ascii ''Zone 1''), (ascii ''2A'', ascii ''Zone 2'')] \<and>
   length (ascii ''971'') = 3 \<and> \<not> py_isdigit (ascii ''2A'')"
proof -
  have u: "[0 ..< 6] = [0, 1, 2, 3, 4, 5]"
    by (simp add: upt_rec)
  have d: "str_of_int 971 = ascii ''971''" "str_of_int 1 = ascii ''1''" "str_of_int 2 = ascii ''2''"
    by (simp_all add: str_of_int_def digits_of_nat.simps ascii_def)
  have "read_zones_transport
     [(ascii ''Zone.TFranco'',
       visible_sheet [[PStr (ascii ''Zone 1'')], [PInt 971, PStr (ascii ''2A''), PNone, PNone, PNone, PNone]])] =
     Inr [(ascii ''971'', ascii ''Zone 1''), (ascii ''2A'', ascii ''Zone 2'')]"
    unfolding read_zones_transport_def wb_get_def u
    by (simp add: bind_err_def data_rows_def visible_sheet_def cell_def dept_code_PInt dept_code_PStr
        d is_digit_char_def)
       (simp add: ascii_def py_strip_def py_isspace_def)
  then show ?thesis
    by (simp add: ascii_def py_isdigit_def is_digit_char_def)
qed

section \<open>A text where a price is expected\<close>

lemma fold_err_append:
  "fold_err f (xs @ ys) s = bind_err (fold_err f xs s) (fold_err f ys)"
  by (induction xs arbitrary: s) (auto simp: bind_err_def split: sum.splits)

lemma clean_number_text:
  "float_of_str s = None \<Longrightarrow> clean_number (PStr s) d = Inl ValueError"
  by (simp add: clean_number_def bind_err_def)

lemma float_of_str_sur_devis: "float_of_str (ascii ''sur devis'') = None"
  by (simp add: float_of_str_def ascii_def py_strip_def py_isspace_def take_sign_def digitpart_def
      is_dec_digit_def ascii_lower_def)

lemma monument_row_text_price:
  assumes "9 \<le> length row" "truthy (cell_val (row ! 1))" "cell_val (row ! 5) = PStr s"
    "float_of_str s = None" "int_or_zero (cell_val (row ! 3)) = Inr cg"
  shows "monument_row h row items = Inl ValueError"
proof -
  have "s \<noteq> []"
    using assms(3) by (cases "row ! 5") (auto split: if_splits)
  then have "number_or_zero (PStr s) = Inl ValueError"
    using assms(4) by (simp add: number_or_zero_def clean_number_text)
  then have "monument_entry h row = Inl ValueError"
    using assms by (simp add: monument_entry_def bind_err_def)
  then show ?thesis
    using assms by (simp add: monument_row_def has_ref_and_price_def bind_err_def)
qed

text \<open>
  Claim C10. \<^verbatim>\<open>clean_number\<close> is not total on texts: on a text that \<^verbatim>\<open>float\<close> does not
  read, such as \<^verbatim>\<open>sur devis\<close>, it raises \<^verbatim>\<open>ValueError\<close> instead of returning \<^verbatim>\<open>None\<close>.
  So a row of a monument tab with a reference and such a text in its price cell makes
  \<^verbatim>\<open>read_monuments\<close> raise: the row is neither skipped nor given the price 0.
\<close>

theorem clean_number_raises_on_text:
  "(float_of_str s = None \<longrightarrow> clean_number (PStr s) d = Inl ValueError) \<and>
   clean_number (PStr (ascii ''sur devis'')) 2 = Inl ValueError \<and>
   (wb_get wb tab_name = Inr ws \<and> data_rows ws = pre @ row # post \<and>
    fold_err (monument_row h) pre [] = Inr items \<and>
    9 \<le> length row \<and> truthy (cell_val (row ! 1)) \<and> cell_val (row ! 5) = PStr s \<and>
    float_of_str s = None \<and> int_or_zero (cell_val (row ! 3)) = Inr cg \<longrightarrow>
      read_monuments h wb tab_name = Inl ValueError)"
proof (intro conjI impI)
  assume "float_of_str s = None"
  then show "clean_number (PStr s) d = Inl ValueError"
    by (rule clean_number_text)
next
  show "clean_number (PStr (ascii ''sur devis'')) 2 = Inl ValueError"
    using float_of_str_sur_devis by (rule clean_number_text)
next
  assume a: "wb_get wb tab_name = Inr ws \<and> data_rows ws = pre @ row # post \<and>
    fold_err (monument_row h) pre [] = Inr items \<and>
    9 \<le> length row \<and> truthy (cell_val (row ! 1)) \<and> cell_val (row ! 5) = PStr s \<and>
    float_of_str s = None \<and> int_or_zero (cell_val (row ! 3)) = Inr cg"
  then have "monument_row h row items = Inl ValueError"
    by (intro monument_row_text_price [where s = s and cg = cg]) simp_all
  then have "fold_err (monument_row h) (pre @ row # post) [] = Inl ValueError"
    using a by (simp add: fold_err_append bind_err_def)
  then show "read_monuments h wb tab_name = Inl ValueError"
    using a by (simp add: read_monuments_def bind_err_def)
qed

theorem clean_number_raises_on_text_witness:
  "float_of_str (ascii ''sur devis'') = None \<and>
   clean_number (PStr (ascii ''sur devis'')) 2 = Inl ValueError \<and>
   wb_get text_price_wb (ascii ''Monument'') = Inr (visible_sheet [[], text_price_row]) \<and>
   data_rows (visible_sheet [[], text_price_row]) = [] @ text_price_row # [] \<and>
   fold_err (monument_row example_host) [] [] = Inr [] \<and>
   9 \<le> length text_price_row \<and> truthy (cell_val (text_price_row ! 1)) \<and>
   cell_val (text_price_row ! 5) = PStr (ascii ''sur devis'') \<and>
   int_or_zero (cell_val (text_price_row ! 3)) = Inr (PInt 12) \<and>
   read_monuments example_host text_price_wb (ascii ''Monument'') = Inl ValueError"
proof -
  have hyps:
    "wb_get text_price_wb (ascii ''Monument'') = Inr (visible_sheet [[], text_price_row])"
    "data_rows (visible_sheet [[], text_price_row]) = [] @ text_price_row # []"
    "fold_err (monument_row example_host) [] [] = Inr []"
    "9 \<le> length text_price_row" "truthy (cell_val (text_price_row ! 1))"
    "cell_val (text_price_row ! 5) = PStr (ascii ''sur devis'')"
    "int_or_zero (cell_val (text_price_row ! 3)) = Inr (PInt 12)"
    by (simp_all add: text_price_wb_def wb_get_def data_rows_def visible_sheet_def text_price_row_def
        int_or_zero_def bind_err_def ascii_def py_strip_def py_isspace_def)
  show ?thesis
    using clean_number_raises_on_text
      [of "ascii ''sur devis''" 2 text_price_wb "ascii ''Monument''"
          "visible_sheet [[], text_price_row]" "[]" text_price_row "[]" example_host "[]" "PInt 12"]
      hyps float_of_str_sur_devis
    by blast
qed

section \<open>The product readers\<close>

lemma bind_err_InrE:
  assumes "bind_err m f = Inr y"
  obtains x where "m = Inr x" "f x = Inr y"
  using assms by (auto simp: bind_err_Inr_iff)

lemma clean_number_not_None:
  "v \<noteq> PNone \<Longrightarrow> clean_number v d = Inr p \<Longrightarrow> p \<noteq> PNone"
  by (auto simp: clean_number_def bind_err_Inr_iff Let_def split: if_splits)

lemma number_or_zero_not_None: "number_or_zero v = Inr p \<Longrightarrow> v \<noteq> PNone \<Longrightarrow> p \<noteq> PNone"
  by (auto simp: number_or_zero_def clean_number_not_None split: if_splits)

lemma map_of_add_photo:
  "k \<noteq> ascii ''photo'' \<Longrightarrow> map_of (add_photo photo entry) k = map_of entry k"
  by (auto simp: add_photo_def map_of_dict_set split: option.splits)

lemma fold_err_filter:
  assumes step: "\<And>row items items'. f row items = Inr items' \<Longrightarrow>
            (if Q row then \<exists>e. items' = items @ [e] \<and> R row e else items' = items)"
    and run: "fold_err f rows acc = Inr items"
  shows "\<exists>new. items = acc @ new \<and> list_all2 R (filter Q rows) new"
  using run
proof (induction rows arbitrary: acc)
  case Nil
  then show ?case by simp
next
  case (Cons row rows)
  from Cons.prems obtain t where t: "f row acc = Inr t" "fold_err f rows t = Inr items"
    by (auto simp: bind_err_Inr_iff)
  from Cons.IH [OF t(2)] obtain new where new: "items = t @ new" "list_all2 R (filter Q rows) new"
    by blast
  show ?case
  proof (cases "Q row")
    case True
    with step [OF t(1)] obtain e where e: "t = acc @ [e]" "R row e" by auto
    with new True show ?thesis by (intro exI [of _ "e # new"]) simp
  next
    case False
    with step [OF t(1)] have "t = acc" by simp
    with new False show ?thesis by auto
  qed
qed

lemma key_neq:
  "ascii ''reference'' \<noteq> ascii ''photo''" "ascii ''prix_ht'' \<noteq> ascii ''photo''"
  "ascii ''prix_caractere_ht'' \<noteq> ascii ''photo''"
  by (simp_all add: ascii_def)

lemma monument_entry_item:
  assumes "monument_entry h row = Inr e" "cell_val (row ! 5) \<noteq> PNone"
  shows "item_of_row h 1 (ascii ''prix_ht'') row e"
proof -
  from assms(1) obtain cg p s1 s2 s3 photo where
    p: "number_or_zero (cell_val (row ! 5)) = Inr p" and
    e: "e = add_photo photo
          [(ascii ''ligne'', str_or_empty h (cell_val (row ! 0))),
           (ascii ''reference'', PStr (py_str h (cell_val (row ! 1)))),
           (ascii ''origine'', str_or_empty h (cell_val (row ! 2))),
           (ascii ''code_granit'', cg),
           (ascii ''granit'', str_or_empty h (cell_val (row ! 4))),
           (ascii ''prix_ht'', p),
           (ascii ''avec_semelle_130x230'', s1),
           (ascii ''avec_semelle_140x240'', s2),
           (ascii ''avec_semelle_150x250'', s3)]"
    unfolding monument_entry_def Let_def
    by (elim bind_err_InrE) (simp only: sum.inject, blast)
  have "p \<noteq> PNone"
    using p assms(2) by (rule number_or_zero_not_None)
  moreover have "map_of e (ascii ''reference'') = Some (PStr (py_str h (cell_val (row ! 1))))"
    unfolding e by (simp add: map_of_add_photo key_neq) (simp add: ascii_def)
  moreover have "map_of e (ascii ''prix_ht'') = Some p"
    unfolding e by (simp add: map_of_add_photo key_neq) (simp add: ascii_def)
  ultimately show ?thesis
    by (simp add: item_of_row_def)
qed

lemma semelle_entry_item:
  assumes "semelle_entry h row = Inr e" "cell_val (row ! 5) \<noteq> PNone"
  shows "item_of_row h 1 (ascii ''prix_ht'') row e"
proof -
  from assms(1) obtain cg p where
    p: "number_or_zero (cell_val (row ! 5)) = Inr p" and
    e: "e = [(ascii ''reference'', PStr (py_str h (cell_val (row ! 1)))),
            (ascii ''origine'', str_or_empty h (cell_val (row ! 2))),
            (ascii ''code_granit'', cg),
            (ascii ''granit'', str_or_empty h (cell_val (row ! 4))),
            (ascii ''prix_ht'', p)]"
    unfolding semelle_entry_def Let_def
    by (elim bind_err_InrE) auto
  have "p \<noteq> PNone"
    using p assms(2) by (rule number_or_zero_not_None)
  moreover have "map_of e (ascii ''reference'') = Some (PStr (py_str h (cell_val (row ! 1))))"
    unfolding e by simp
  moreover have "map_of e (ascii ''prix_ht'') = Some p"
    unfolding e by (simp add: ascii_def)
  ultimately show ?thesis
    by (simp add: item_of_row_def)
qed

lemma accessoire_entry_item:
  assumes "accessoire_entry h row = Inr e" "cell_val (row ! 6) \<noteq> PNone"
  shows "item_of_row h 2 (ascii ''prix_ht'') row e"
proof -
  from assms(1) obtain cg p photo where
    p: "number_or_zero (cell_val (row ! 6)) = Inr p" and
    e: "e = add_photo photo
          [(ascii ''type'', str_or_empty h (cell_val (row ! 1))),
           (ascii ''reference'', PStr (py_str h (cell_val (row ! 2)))),
           (ascii ''origine'', str_or_empty h (cell_val (row ! 3))),
           (ascii ''code_granit'', cg),
           (ascii ''granit'', str_or_empty h (cell_val (row ! 5))),
           (ascii ''prix_ht'', p)]"
    unfolding accessoire_entry_def Let_def
    by (elim bind_err_InrE) (simp only: sum.inject, blast)
  have "p \<noteq> PNone"
    using p assms(2) by (rule number_or_zero_not_None)
  moreover have "map_of e (ascii ''reference'') = Some (PStr (py_str h (cell_val (row ! 2))))"
    unfolding e by (simp add: map_of_add_photo key_neq) (simp add: ascii_def)
  moreover have "map_of e (ascii ''prix_ht'') = Some p"
    unfolding e by (simp add: map_of_add_photo key_neq) (simp add: ascii_def)
  ultimately show ?thesis
    by (simp add: item_of_row_def)
qed

lemma gravure_entry_item:
  assumes "gravure_entry h row = Inr e" "cell_val (row ! 2) \<noteq> PNone"
  shows "item_of_row h 1 (ascii ''prix_caractere_ht'') row e"
proof -
  from assms(1) obtain p where
    p: "number_or_zero (cell_val (row ! 2)) = Inr p" and
    e: "e = [(ascii ''reference'', PStr (py_str h (cell_val (row ! 1)))),
            (ascii ''prix_caractere_ht'', p)]"
    unfolding gravure_entry_def Let_def
    by (elim bind_err_InrE) auto
  have "p \<noteq> PNone"
    using p assms(2) by (rule number_or_zero_not_None)
  moreover have "map_of e (ascii ''reference'') = Some (PStr (py_str h (cell_val (row ! 1))))"
    unfolding e by simp
  moreover have "map_of e (ascii ''prix_caractere_ht'') = Some p"
    unfolding e by (simp add: ascii_def)
  ultimately show ?thesis
    by (simp add: item_of_row_def)
qed

text \<open>The loop of a specialised reader, whatever its columns and its entry.\<close>

lemma specialised_loop:
  assumes row: "\<And>row items. f row items =
        (if length row < n then Inl IndexError
         else if has_ref_and_price (cell_val (row ! i)) (cell_val (row ! j))
           then bind_err (entry row) (\<lambda>e. Inr (items @ [e]))
         else Inr items)"
    and entry: "\<And>row e. entry row = Inr e \<Longrightarrow> cell_val (row ! j) \<noteq> PNone \<Longrightarrow> item_of_row h i pk row e"
    and run: "fold_err f rows [] = Inr items"
  shows "list_all2 (item_of_row h i pk)
           (filter (\<lambda>row. has_ref_and_price (cell_val (row ! i)) (cell_val (row ! j))) rows) items"
proof -
  let ?Q = "\<lambda>row. has_ref_and_price (cell_val (row ! i)) (cell_val (row ! j))"
  have step: "if ?Q r then \<exists>e. t' = t @ [e] \<and> item_of_row h i pk r e else t' = t"
    if "f r t = Inr t'" for r t t'
  proof (cases "?Q r")
    case True
    with that obtain e where e: "entry r = Inr e" "t' = t @ [e]"
      by (auto simp: row bind_err_Inr_iff split: if_splits)
    from True have "cell_val (r ! j) \<noteq> PNone"
      by (simp add: has_ref_and_price_def)
    from entry [OF e(1) this] e(2) True show ?thesis by auto
  next
    case False
    with that show ?thesis
      by (auto simp: row split: if_splits)
  qed
  from fold_err_filter [of f ?Q "item_of_row h i pk", OF step run]
  show ?thesis by auto
qed

lemma read_monuments_items:
  assumes "read_monuments h wb tab = Inr items"
  shows "\<exists>ws. wb_get wb tab = Inr ws \<and>
           list_all2 (item_of_row h 1 (ascii ''prix_ht''))
             (filter (\<lambda>row. has_ref_and_price (cell_val (row ! 1)) (cell_val (row ! 5))) (data_rows ws))
             items"
proof -
  from assms obtain ws where ws: "wb_get wb tab = Inr ws"
    and f: "fold_err (monument_row h) (data_rows ws) [] = Inr items"
    by (auto simp: read_monuments_def bind_err_Inr_iff)
  from specialised_loop [of "monument_row h" 9 1 5 "monument_entry h", OF _ _ f]
  show ?thesis
    using ws monument_entry_item by (simp add: monument_row_def)
qed

lemma read_semelles_items:
  assumes "read_semelles h wb tab = Inr items"
  shows "\<exists>ws. wb_get wb tab = Inr ws \<and>
           list_all2 (item_of_row h 1 (ascii ''prix_ht''))
             (filter (\<lambda>row. has_ref_and_price (cell_val (row ! 1)) (cell_val (row ! 5))) (data_rows ws))
             items"
proof -
  from assms obtain ws where ws: "wb_get wb tab = Inr ws"
    and f: "fold_err (semelle_row h) (data_rows ws) [] = Inr items"
    by (auto simp: read_semelles_def bind_err_Inr_iff)
  from specialised_loop [of "semelle_row h" 6 1 5 "semelle_entry h", OF _ _ f]
  show ?thesis
    using ws semelle_entry_item by (simp add: semelle_row_def)
qed

lemma read_accessoires_items:
  assumes "read_accessoires h wb tab = Inr items"
  shows "\<exists>ws. wb_get wb tab = Inr ws \<and>
           list_all2 (item_of_row h 2 (ascii ''prix_ht''))
             (filter (\<lambda>row. has_ref_and_price (cell_val (row ! 2)) (cell_val (row ! 6))) (data_rows ws))
             items"
proof -
  from assms obtain ws where ws: "wb_get wb tab = Inr ws"
    and f: "fold_err (accessoire_row h) (data_rows ws) [] = Inr items"
    by (auto simp: read_accessoires_def bind_err_Inr_iff)
  from specialised_loop [of "accessoire_row h" 7 2 6 "accessoire_entry h", OF _ _ f]
  show ?thesis
    using ws accessoire_entry_item by (simp add: accessoire_row_def)
qed

lemma read_gravures_items:
  assumes "read_gravures h wb tab = Inr items"
  shows "\<exists>ws. wb_get wb tab = Inr ws \<and>
           list_all2 (item_of_row h 1 (ascii ''prix_caractere_ht''))
             (filter (\<lambda>row. has_ref_and_price (cell_val (row ! 1)) (cell_val (row ! 2))) (data_rows ws))
             items"
proof -
  from assms obtain ws where ws: "wb_get wb tab = Inr ws"
    and f: "fold_err (gravure_row h) (data_rows ws) [] = Inr items"
    by (auto simp: read_gravures_def bind_err_Inr_iff)
  from specialised_loop [of "gravure_row h" 3 1 2 "gravure_entry h", OF _ _ f]
  show ?thesis
    using ws gravure_entry_item by (simp add: gravure_row_def)
qed

subsection \<open>The example workbook\<close>

lemma tab_types:
  "extract_product_type gravures_tab = ascii ''Gravure''"
  "extract_product_type urnes_tab = ascii ''Urne''"
  by (simp_all add: extract_product_type_def gravures_tab_def urnes_tab_def ascii_def ends_with_def)

lemma example_sheets:
  "map_of example_wb gravures_tab =
     Some (visible_sheet [[PNone, PStr (ascii ''Ref''), PStr (ascii ''Prix'')],
                      [PNone, PStr (ascii ''GR1''), PFloat (Fin (5 / 2))],
                      [PNone, PStr (ascii ''GR2''), PNone]])"
  "map_of example_wb urnes_tab =
     Some (visible_sheet [[PStr (ascii ''R'' @ [233] @ ascii ''f'' @ [233] @ ascii ''rence''),
                       PStr (ascii ''Prix'')],
                      [PStr (ascii ''U1''), PNone]])"
  by (simp_all add: example_wb_def gravures_tab_def urnes_tab_def ascii_def)

lemma clean_5_2: "clean_number (PFloat (Fin (5 / 2))) 2 = Inr (PFloat (Fin (5 / 2)))"
  by code_simp

lemma read_gravures_example:
  "read_gravures example_host example_wb gravures_tab =
     Inr [[(ascii ''reference'', PStr (ascii ''GR1'')),
           (ascii ''prix_caractere_ht'', PFloat (Fin (5 / 2)))]]"
  unfolding read_gravures_def wb_get_def example_sheets
  by (simp add: bind_err_def data_rows_def visible_sheet_def gravure_row_def gravure_entry_def
      has_ref_and_price_def number_or_zero_def clean_5_2 ascii_def py_strip_def py_isspace_def)

lemma read_generic_example:
  "read_generic_product example_host example_wb urnes_tab (ascii ''Urne'') =
     Inr [[(ascii ''reference'', PStr (ascii ''U1''))]]"
  unfolding read_generic_product_def wb_get_def example_sheets
  by (simp add: bind_err_def data_rows_def visible_sheet_def header_of_def generic_row_def
      set_field_def starts_with_def find_photo_example add_photo_def
      py_lower_def lower_char_def ascii_def py_strip_def py_isspace_def)

lemma type_neq:
  "ascii ''Gravure'' \<noteq> ascii ''Monument''" "ascii ''Gravure'' \<noteq> ascii ''Semelle''"
  "ascii ''Gravure'' \<noteq> ascii ''Accessoire''"
  "ascii ''Urne'' \<noteq> ascii ''Monument''" "ascii ''Urne'' \<noteq> ascii ''Semelle''"
  "ascii ''Urne'' \<noteq> ascii ''Accessoire''" "ascii ''Urne'' \<noteq> ascii ''Gravure''"
  by (simp_all add: ascii_def)

lemma read_product_gravures:
  "read_product example_host example_wb gravures_tab =
     Inr (ascii ''gravures'',
          [[(ascii ''reference'', PStr (ascii ''GR1'')),
            (ascii ''prix_caractere_ht'', PFloat (Fin (5 / 2)))]])"
  by (simp add: read_product_def tab_types type_neq read_gravures_example bind_err_def)

lemma read_product_urnes:
  "read_product example_host example_wb urnes_tab =
     Inr (ascii ''urnes'', [[(ascii ''reference'', PStr (ascii ''U1''))]])"
proof -
  have "py_lower (ascii ''Urne'') @ ascii ''s'' = ascii ''urnes''"
    by (simp add: py_lower_def lower_char_def ascii_def)
  then show ?thesis
    by (simp add: read_product_def tab_types type_neq read_generic_example bind_err_def)
qed

subsection \<open>Which rows give items\<close>

text \<open>
  Claim C1, as the code has it. For a tab that the assembler hands to one of the four
  specialised readers (monuments, semelles, accessoires, gravures), the items returned
  are, one for one and in order, the rows whose reference is true and whose price is not
  \<^verbatim>\<open>None\<close>: each item carries the reference of its row and a price that is not null.
  The generic reader is not bound by this rule.
\<close>

theorem specialised_readers_need_ref_and_price:
  "read_product h wb tab = Inr (key, items) \<and>
   extract_product_type tab \<in> set specialised_types \<longrightarrow>
     (\<exists>ws. wb_get wb tab = Inr ws \<and>
        (case product_columns (extract_product_type tab) of
           (i, j, pk) \<Rightarrow>
             list_all2 (item_of_row h i pk)
               (filter (\<lambda>row. has_ref_and_price (cell_val (row ! i)) (cell_val (row ! j)))
                  (data_rows ws))
               items))"
proof
  assume a: "read_product h wb tab = Inr (key, items) \<and>
             extract_product_type tab \<in> set specialised_types"
  let ?t = "extract_product_type tab"
  have neq: "ascii ''Monument'' \<noteq> ascii ''Accessoire''" "ascii ''Monument'' \<noteq> ascii ''Gravure''"
    "ascii ''Semelle'' \<noteq> ascii ''Monument''" "ascii ''Semelle'' \<noteq> ascii ''Accessoire''"
    "ascii ''Semelle'' \<noteq> ascii ''Gravure''" "ascii ''Accessoire'' \<noteq> ascii ''Monument''"
    "ascii ''Accessoire'' \<noteq> ascii ''Semelle''" "ascii ''Gravure'' \<noteq> ascii ''Monument''"
    "ascii ''Gravure'' \<noteq> ascii ''Semelle''" "ascii ''Gravure'' \<noteq> ascii ''Accessoire''"
    by (simp_all add: ascii_def)
  from a consider "?t = ascii ''Monument''" | "?t = ascii ''Semelle''"
    | "?t = ascii ''Accessoire''" | "?t = ascii ''Gravure''"
    by (auto simp: specialised_types_def)
  then show "\<exists>ws. wb_get wb tab = Inr ws \<and>
        (case product_columns ?t of
           (i, j, pk) \<Rightarrow>
             list_all2 (item_of_row h i pk)
               (filter (\<lambda>row. has_ref_and_price (cell_val (row ! i)) (cell_val (row ! j)))
                  (data_rows ws))
               items)"
  proof cases
    case 1
    with a have "read_monuments h wb tab = Inr items"
      by (auto simp: read_product_def bind_err_Inr_iff)
    from read_monuments_items [OF this] show ?thesis
      by (simp add: 1 product_columns_def neq)
  next
    case 2
    with a have "read_semelles h wb tab = Inr items"
      by (auto simp: read_product_def neq bind_err_Inr_iff)
    from read_semelles_items [OF this] show ?thesis
      by (simp add: 2 product_columns_def neq)
  next
    case 3
    with a have "read_accessoires h wb tab = Inr items"
      by (auto simp: read_product_def neq bind_err_Inr_iff)
    from read_accessoires_items [OF this] show ?thesis
      by (simp add: 3 product_columns_def neq)
  next
    case 4
    with a have "read_gravures h wb tab = Inr items"
      by (auto simp: read_product_def neq bind_err_Inr_iff)
    from read_gravures_items [OF this] show ?thesis
      by (simp add: 4 product_columns_def neq)
  qed
qed

theorem specialised_readers_need_ref_and_price_witness:
  "read_product example_host example_wb gravures_tab =
     Inr (ascii ''gravures'',
          [[(ascii ''reference'', PStr (ascii ''GR1'')),
            (ascii ''prix_caractere_ht'', PFloat (Fin (5 / 2)))]]) \<and>
   extract_product_type gravures_tab \<in> set specialised_types \<and>
   (\<exists>ws. wb_get example_wb gravures_tab = Inr ws \<and>
      (case product_columns (extract_product_type gravures_tab) of
         (i, j, pk) \<Rightarrow>
           list_all2 (item_of_row example_host i pk)
             (filter (\<lambda>row. has_ref_and_price (cell_val (row ! i)) (cell_val (row ! j)))
                (data_rows ws))
             [[(ascii ''reference'', PStr (ascii ''GR1'')),
               (ascii ''prix_caractere_ht'', PFloat (Fin (5 / 2)))]]))"
proof -
  have t: "extract_product_type gravures_tab \<in> set specialised_types"
    by (simp add: tab_types specialised_types_def)
  show ?thesis
    using specialised_readers_need_ref_and_price
      [of example_host example_wb gravures_tab "ascii ''gravures''"
          "[[(ascii ''reference'', PStr (ascii ''GR1'')),
             (ascii ''prix_caractere_ht'', PFloat (Fin (5 / 2)))]]"]
      read_product_gravures t
    by blast
qed

text \<open>
  Claim C1, as it is stated, fails for the generic reader: the urn tab has the row
  \<^verbatim>\<open>U1\<close> with an empty price cell, and the reader, to which the assembler sends the type
  \<^verbatim>\<open>Urne\<close>, returns an item for it, without a price.
\<close>

theorem generic_reader_item_without_price_counterexample:
  "read_product example_host example_wb urnes_tab =
     Inr (ascii ''urnes'', [[(ascii ''reference'', PStr (ascii ''U1''))]]) \<and>
   map_of example_wb urnes_tab =
     Some (visible_sheet [[PStr (ascii ''R'' @ [233] @ ascii ''f'' @ [233] @ ascii ''rence''),
                           PStr (ascii ''Prix'')],
                          [PStr (ascii ''U1''), PNone]]) \<and>
   map_of [(ascii ''reference'', PStr (ascii ''U1''))] (ascii ''prix_ht'') = None"
proof -
  have "map_of [(ascii ''reference'', PStr (ascii ''U1''))] (ascii ''prix_ht'') = None"
    by (simp add: ascii_def)
  then show ?thesis
    using read_product_urnes example_sheets(2) by simp
qed

end
